theory Spec2Isabelle
  imports Complex_Main "HOL-Library.AList"
begin

section \<open>Slick Unit Converter Plus: the conversion engine\<close>

text \<open>
  A shallow embedding of \<^verbatim>\<open>slick_unit_converter_plus.py\<close>: the unit registry, the
  seed table, the expression pattern \<^verbatim>\<open>EXPR_PAT\<close>, \<^verbatim>\<open>safe_eval\<close>,
  \<^verbatim>\<open>parse_and_convert\<close> and the loop of \<^verbatim>\<open>run_batch\<close>.

  Conventions of the embedding.
  \<^item> Python \<^verbatim>\<open>float\<close> is idealised as \<open>real\<close>: rounding, infinities and NaN are
    not modelled.
  \<^item> A Python \<^verbatim>\<open>str\<close> is a \<open>string\<close>. The character classes \<^verbatim>\<open>\s\<close>,
    \<^verbatim>\<open>\w\<close>, \<^verbatim>\<open>\d\<close> and \<^verbatim>\<open>str.lower\<close> are given on ASCII; the few
    non-ASCII characters of the seed table are written as their UTF-8 bytes, which
    none of the classes contains and which \<^verbatim>\<open>lower\<close> leaves alone.
  \<^item> An exception is a value of type \<open>pyexn\<close>; a function that may raise returns
    \<open>pyexn + 'a\<close>.
  \<^item> The Python runtime that the program calls (\<^verbatim>\<open>ast.parse\<close>, \<^verbatim>\<open>eval\<close>,
    \<^verbatim>\<open>float\<close> on a string, the \<^verbatim>\<open>g\<close> number format) is not code of the
    program; it is a parameter of the model, the record \<open>host\<close>.
\<close>

subsection \<open>Text\<close>

definition code :: "char \<Rightarrow> nat" where
  \<comment> \<open>\<^verbatim>\<open>ord(c)\<close>\<close>
  "code c = of_char c"

definition is_space :: "char \<Rightarrow> bool" where
  \<comment> \<open>\<^verbatim>\<open>\s\<close> and \<^verbatim>\<open>str.isspace\<close> on ASCII: TAB..CR, FS..US, space\<close>
  "is_space c = ((9 \<le> code c \<and> code c \<le> 13) \<or> (28 \<le> code c \<and> code c \<le> 32))"

definition is_digit :: "char \<Rightarrow> bool" where
  \<comment> \<open>\<^verbatim>\<open>\d\<close> on ASCII, and the set \<^verbatim>\<open>0-9\<close>\<close>
  "is_digit c = (48 \<le> code c \<and> code c \<le> 57)"

definition is_upper :: "char \<Rightarrow> bool" where
  "is_upper c = (65 \<le> code c \<and> code c \<le> 90)"

definition is_lower :: "char \<Rightarrow> bool" where
  "is_lower c = (97 \<le> code c \<and> code c \<le> 122)"

definition is_word :: "char \<Rightarrow> bool" where
  \<comment> \<open>\<^verbatim>\<open>\w\<close> on ASCII\<close>
  "is_word c = (is_lower c \<or> is_upper c \<or> is_digit c \<or> c = CHR ''_'')"

definition lower_char :: "char \<Rightarrow> char" where
  \<comment> \<open>an upper-case letter and its lower-case letter differ in the bit of value 32\<close>
  "lower_char c =
     (if is_upper c
      then (case c of Char b0 b1 b2 b3 b4 b5 b6 b7 \<Rightarrow> Char b0 b1 b2 b3 b4 True b6 b7)
      else c)"

definition lower :: "string \<Rightarrow> string" where
  \<comment> \<open>\<^verbatim>\<open>str.lower()\<close>\<close>
  "lower s = map lower_char s"

definition strip :: "string \<Rightarrow> string" where
  \<comment> \<open>\<^verbatim>\<open>str.strip()\<close>\<close>
  "strip s = rev (dropWhile is_space (rev (dropWhile is_space s)))"

fun replace_caret :: "string \<Rightarrow> string" where
  \<comment> \<open>\<^verbatim>\<open>expr.replace('^', '**')\<close>\<close>
  "replace_caret [] = []"
| "replace_caret (c # cs) =
     (if c = CHR ''^'' then ''**'' @ replace_caret cs else c # replace_caret cs)"

subsection \<open>A backtracking matcher for the pattern language of \<^verbatim>\<open>EXPR_PAT\<close>\<close>

text \<open>
  The constructs that occur in \<^verbatim>\<open>EXPR_PAT\<close>: one character of a class, a literal
  (matched without regard to case, as \<^verbatim>\<open>re.IGNORECASE\<close> asks), sequence,
  alternation, the greedy option \<^verbatim>\<open>(?:r)?\<close>, greedy and lazy repetition of a
  class (\<^verbatim>\<open>*\<close>, \<^verbatim>\<open>+\<close>, \<^verbatim>\<open>*?\<close>, \<^verbatim>\<open>+?\<close>), a named group and the
  anchors. The matcher is written in continuation-passing style and explores the
  alternatives in the order of Python's \<^verbatim>\<open>re\<close>: the first success is the match.
\<close>

datatype rx =
    Chr "char \<Rightarrow> bool"
  | Lit string
  | Seq rx rx
  | Alt rx rx
  | Opt rx
  | Star bool "char \<Rightarrow> bool"
  | Plus bool "char \<Rightarrow> bool"
  | Grp string rx
  | Bos
  | Eos

type_synonym caps = "string \<rightharpoonup> string"

fun star_greedy :: "(char \<Rightarrow> bool) \<Rightarrow> (string \<Rightarrow> 'a option) \<Rightarrow> string \<Rightarrow> 'a option" where
  "star_greedy P k [] = k []"
| "star_greedy P k (x # xs) =
     (if P x
      then (case star_greedy P k xs of Some r \<Rightarrow> Some r | None \<Rightarrow> k (x # xs))
      else k (x # xs))"

fun star_lazy :: "(char \<Rightarrow> bool) \<Rightarrow> (string \<Rightarrow> 'a option) \<Rightarrow> string \<Rightarrow> 'a option" where
  "star_lazy P k [] = k []"
| "star_lazy P k (x # xs) =
     (case k (x # xs) of
        Some r \<Rightarrow> Some r
      | None \<Rightarrow> if P x then star_lazy P k xs else None)"

definition star :: "bool \<Rightarrow> (char \<Rightarrow> bool) \<Rightarrow> (string \<Rightarrow> 'a option) \<Rightarrow> string \<Rightarrow> 'a option" where
  "star greedy P k s = (if greedy then star_greedy P k s else star_lazy P k s)"

definition one :: "(char \<Rightarrow> bool) \<Rightarrow> (string \<Rightarrow> 'a option) \<Rightarrow> string \<Rightarrow> 'a option" where
  "one P k s = (case s of [] \<Rightarrow> None | x # xs \<Rightarrow> if P x then k xs else None)"

definition ci_prefix :: "string \<Rightarrow> string \<Rightarrow> bool" where
  \<comment> \<open>the literal \<open>l\<close> starts \<open>s\<close>, case ignored\<close>
  "ci_prefix l s = (length l \<le> length s \<and> lower (take (length l) s) = lower l)"

primrec rmatch :: "string \<Rightarrow> rx \<Rightarrow> (caps \<Rightarrow> string \<Rightarrow> caps option) \<Rightarrow> caps \<Rightarrow> string \<Rightarrow> caps option" where
  "rmatch inp (Chr P) k c s = one P (k c) s"
| "rmatch inp (Lit l) k c s = (if ci_prefix l s then k c (drop (length l) s) else None)"
| "rmatch inp (Seq a b) k c s = rmatch inp a (rmatch inp b k) c s"
| "rmatch inp (Alt a b) k c s =
     (case rmatch inp a k c s of Some r \<Rightarrow> Some r | None \<Rightarrow> rmatch inp b k c s)"
| "rmatch inp (Opt a) k c s =
     (case rmatch inp a k c s of Some r \<Rightarrow> Some r | None \<Rightarrow> k c s)"
| "rmatch inp (Star g P) k c s = star g P (k c) s"
| "rmatch inp (Plus g P) k c s = one P (star g P (k c)) s"
| "rmatch inp (Grp n a) k c s =
     rmatch inp a (\<lambda>c' s'. k (c'(n \<mapsto> take (length s - length s') s)) s') c s"
| "rmatch inp Bos k c s = (if length s = length inp then k c s else None)"
| "rmatch inp Eos k c s = (if s = [] \<or> s = [CHR 0x0A] then k c s else None)"

definition re_match :: "rx \<Rightarrow> string \<Rightarrow> caps option" where
  \<comment> \<open>\<^verbatim>\<open>pattern.match(s)\<close>: anchored at the start, free at the end\<close>
  "re_match r s = rmatch s r (\<lambda>c s'. Some c) Map.empty s"

definition seqs :: "rx list \<Rightarrow> rx" where
  "seqs rs = foldr Seq (butlast rs) (last rs)"

definition value_char :: "char \<Rightarrow> bool" where
  \<comment> \<open>\<^verbatim>\<open>[-+*/^().\w\s]\<close>\<close>
  "value_char c = (c \<in> set ''-+*/^().'' \<or> is_word c \<or> is_space c)"

definition from_first :: "char \<Rightarrow> bool" where
  \<comment> \<open>\<^verbatim>\<open>[^\d\s]\<close>\<close>
  "from_first c = (\<not> is_digit c \<and> \<not> is_space c)"

definition not_09 :: "char \<Rightarrow> bool" where
  \<comment> \<open>\<^verbatim>\<open>[^0-9]\<close>\<close>
  "not_09 c = (\<not> is_digit c)"

definition dot :: "char \<Rightarrow> bool" where
  \<comment> \<open>\<^verbatim>\<open>.\<close> without DOTALL\<close>
  "dot c = (c \<noteq> CHR 0x0A)"

definition EXPR_PAT :: rx where
  "EXPR_PAT = seqs
     [Bos, Star True is_space,
      Opt (Seq (Lit ''convert'') (Plus True is_space)),
      Grp ''value'' (Plus False value_char),
      Star True is_space,
      Grp ''from'' (Seq (Chr from_first) (Star False not_09)),
      Plus True is_space,
      Alt (Lit ''to'') (Lit ''in''),
      Plus True is_space,
      Grp ''to'' (Plus False dot),
      Star True is_space,
      Eos]"

subsection \<open>Exceptions\<close>

datatype pyexn =
    ValueError string
  | TypeError string
  | NameError string
  | SyntaxError string
  | ZeroDivisionError string
  | AttributeError string
  | OtherError string

primrec exn_str :: "pyexn \<Rightarrow> string" where
  \<comment> \<open>\<^verbatim>\<open>str(e)\<close>: the message\<close>
  "exn_str (ValueError m) = m"
| "exn_str (TypeError m) = m"
| "exn_str (NameError m) = m"
| "exn_str (SyntaxError m) = m"
| "exn_str (ZeroDivisionError m) = m"
| "exn_str (AttributeError m) = m"
| "exn_str (OtherError m) = m"

definition quoted :: "string \<Rightarrow> string" where
  \<comment> \<open>a text between single quotes, as the messages show it\<close>
  "quoted s = [CHR 0x27] @ s @ [CHR 0x27]"

subsection \<open>The unit registry\<close>

record Unit =
  name :: string
  to_base :: "real \<Rightarrow> pyexn + real"
  from_base :: "real \<Rightarrow> pyexn + real"
  aliases :: "string set"

text \<open>
  \<^verbatim>\<open>categories: Dict[str, Dict[str, Unit]]\<close>. The outer dictionary is iterated by
  \<^verbatim>\<open>detect_category\<close>, so it keeps its insertion order: an association list,
  updated in place or extended at the end. The inner dictionaries are only looked up.
  A transform returns \<open>pyexn + real\<close>: the linear \<^verbatim>\<open>_from_base\<close> divides by the
  factor, and \<^verbatim>\<open>add\<close> accepts a missing factor or a missing transform.
\<close>

type_synonym category = "string \<rightharpoonup> Unit"
type_synonym registry = "(string \<times> category) list"

definition linear_to_base :: "real option \<Rightarrow> real \<Rightarrow> real \<Rightarrow> pyexn + real" where
  \<comment> \<open>\<^verbatim>\<open>_to_base\<close>; the default \<^verbatim>\<open>factor=None\<close> cannot be multiplied\<close>
  "linear_to_base factor b x =
     (case factor of
        None \<Rightarrow> Inl (TypeError (''unsupported operand type(s) for *: '' @ quoted ''float''
                                 @ '' and '' @ quoted ''NoneType''))
      | Some f \<Rightarrow> Inr (if b = 0 then (x + 0 - 0 * b) * f else (x + (- b)) * f))"

definition linear_from_base :: "real option \<Rightarrow> real \<Rightarrow> real \<Rightarrow> pyexn + real" where
  \<comment> \<open>\<^verbatim>\<open>_from_base\<close>\<close>
  "linear_from_base factor b x =
     (case factor of
        None \<Rightarrow> Inl (TypeError (''unsupported operand type(s) for /: '' @ quoted ''float''
                                 @ '' and '' @ quoted ''NoneType''))
      | Some f \<Rightarrow> if f = 0 then Inl (ZeroDivisionError ''float division by zero'')
                  else Inr (x / f + b))"

definition callable :: "(real \<Rightarrow> real) option \<Rightarrow> real \<Rightarrow> pyexn + real" where
  \<comment> \<open>calling a transform that was passed, or \<^verbatim>\<open>None\<close>\<close>
  "callable g x =
     (case g of
        None \<Rightarrow> Inl (TypeError (quoted ''NoneType'' @ '' object is not callable''))
      | Some f \<Rightarrow> Inr (f x))"

definition make_unit ::
  "string \<Rightarrow> real option \<Rightarrow> real \<Rightarrow> (real \<Rightarrow> real) option \<Rightarrow> (real \<Rightarrow> real) option
     \<Rightarrow> string list \<Rightarrow> Unit" where
  \<comment> \<open>the two branches of \<^verbatim>\<open>add\<close> that build \<^verbatim>\<open>u\<close>\<close>
  "make_unit nm factor offset tb fb als =
     (if tb = None \<and> fb = None
      then \<lparr>name = nm, to_base = linear_to_base factor offset,
             from_base = linear_from_base factor offset, aliases = set (nm # als)\<rparr>
      else \<lparr>name = nm, to_base = callable tb, from_base = callable fb,
             aliases = set (nm # als)\<rparr>)"

definition setdefault :: "registry \<Rightarrow> string \<Rightarrow> category" where
  \<comment> \<open>\<^verbatim>\<open>self.categories.setdefault(category, {})\<close>: the category's dictionary\<close>
  "setdefault r cat_name = (case map_of r cat_name of None \<Rightarrow> Map.empty | Some m \<Rightarrow> m)"

definition register :: "Unit \<Rightarrow> string list \<Rightarrow> category \<Rightarrow> category" where
  \<comment> \<open>\<^verbatim>\<open>for alias in {name, *aliases}: cat[alias.lower()] = u\<close>; every key gets the
      same unit, so the order in which the set is walked does not show\<close>
  "register u keys cat = fold (\<lambda>alias m. m(lower alias \<mapsto> u)) keys cat"

definition add ::
  "string \<Rightarrow> string \<Rightarrow> real option \<Rightarrow> real \<Rightarrow> (real \<Rightarrow> real) option \<Rightarrow> (real \<Rightarrow> real) option
     \<Rightarrow> string list \<Rightarrow> registry \<Rightarrow> registry" where
  "add cat_name nm factor offset tb fb als r =
     AList.update cat_name
       (register (make_unit nm factor offset tb fb als) (nm # als) (setdefault r cat_name)) r"

definition get :: "registry \<Rightarrow> string \<Rightarrow> string \<Rightarrow> Unit option" where
  "get r cat_name unit_key =
     (case map_of r cat_name of None \<Rightarrow> None | Some units \<Rightarrow> units (lower unit_key))"

fun detect_loop :: "registry \<Rightarrow> string \<Rightarrow> string \<Rightarrow> string option" where
  "detect_loop [] al bl = None"
| "detect_loop ((cat, units) # rest) al bl =
     (if units al \<noteq> None \<and> units bl \<noteq> None then Some cat else detect_loop rest al bl)"

definition detect_category :: "registry \<Rightarrow> string \<Rightarrow> string \<Rightarrow> string option" where
  "detect_category r a b = detect_loop r (lower a) (lower b)"

subsection \<open>The linear transforms in IEEE doubles\<close>

text \<open>
  The registry above computes over the reals. Where the last bits of a result matter, the
  two closures of the linear mode are given again with the rounding of a Python
  \<^verbatim>\<open>float\<close>: \<open>fl x\<close> is the double nearest to \<open>x\<close>, ties to the even significand
  (53 bits; overflow and subnormal numbers are left out). A literal of the source, such
  as \<^verbatim>\<open>0.3048\<close>, denotes \<open>fl 0.3048\<close>, and every operation rounds its exact result.
\<close>

definition pow2 :: "int \<Rightarrow> real" where
  "pow2 k = (if 0 \<le> k then 2 ^ nat k else 1 / 2 ^ nat (- k))"

definition round_even :: "real \<Rightarrow> int" where
  \<comment> \<open>the nearest integer, a tie going to the even one\<close>
  "round_even y =
     (let n = \<lfloor>y\<rfloor>; r = y - of_int n
      in if r < 1 / 2 then n else if 1 / 2 < r then n + 1 else if even n then n else n + 1)"

definition fl :: "real \<Rightarrow> real" where
  "fl x = (if x = 0 then 0
           else of_int (round_even (x / pow2 (\<lfloor>log 2 \<bar>x\<bar>\<rfloor> - 52))) * pow2 (\<lfloor>log 2 \<bar>x\<bar>\<rfloor> - 52))"

definition double_to_base :: "real \<Rightarrow> real \<Rightarrow> real \<Rightarrow> real" where
  \<comment> \<open>\<^verbatim>\<open>_to_base\<close> on doubles \<open>f\<close>, \<open>b\<close>, \<open>x\<close>\<close>
  "double_to_base f b x =
     (if b = 0 then fl (fl (fl (x + 0) - fl (0 * b)) * f) else fl (fl (x + (- b)) * f))"

definition double_from_base :: "real \<Rightarrow> real \<Rightarrow> real \<Rightarrow> real" where
  \<comment> \<open>\<^verbatim>\<open>_from_base\<close> on doubles, for a factor that is not zero\<close>
  "double_from_base f b x = fl (fl (x / f) + b)"

subsection \<open>The seed table\<close>

definition add_linear ::
  "string \<Rightarrow> string \<Rightarrow> (string \<times> real \<times> string list) list \<Rightarrow> registry \<Rightarrow> registry" where
  "add_linear cat_name base_name pairs r =
     fold (\<lambda>(nm, factor, als). add cat_name nm (Some factor) 0 None None als) pairs
       (add cat_name base_name (Some 1) 0 None None [base_name] r)"

definition mu :: string where
  \<comment> \<open>the Greek letter mu, U+03BC\<close>
  "mu = [CHR 0xCE, CHR 0xBC]"

definition deg_sign :: string where
  \<comment> \<open>the degree sign, U+00B0\<close>
  "deg_sign = [CHR 0xC2, CHR 0xB0]"

definition C_to_K :: "real \<Rightarrow> real" where "C_to_K x = x + 273.15"
definition K_to_C :: "real \<Rightarrow> real" where "K_to_C x = x - 273.15"
definition F_to_K :: "real \<Rightarrow> real" where "F_to_K x = (x - 32) * 5 / 9 + 273.15"
definition K_to_F :: "real \<Rightarrow> real" where "K_to_F x = (x - 273.15) * 9 / 5 + 32"
definition R_to_K :: "real \<Rightarrow> real" where "R_to_K x = x * 5 / 9"
definition K_to_R :: "real \<Rightarrow> real" where "K_to_R x = x * 9 / 5"

definition reg_length :: "registry \<Rightarrow> registry" where
  "reg_length = add_linear ''length'' ''m''
    [(''km'', 1000, [''kilometer'', ''kilometre'', ''kilometers'', ''kilometres'', ''kms'']),
     (''cm'', 0.01, [''centimeter'', ''centimetre'', ''centimeters'', ''centimetres'', ''cms'']),
     (''mm'', 0.001, [''millimeter'', ''millimetre'', ''millimeters'', ''millimetres'', ''mms'']),
     (mu @ ''m'', 0.000001, [''um'', ''micrometer'', ''micrometre'', ''micron'', ''microns'']),
     (''nm'', 0.000000001, [''nanometer'', ''nanometre'', ''nanometers'', ''nanometres'']),
     (''in'', 0.0254, [''inch'', ''inches'', [CHR 0x22]]),
     (''ft'', 0.3048, [''foot'', ''feet'', [CHR 0x27]]),
     (''yd'', 0.9144, [''yard'', ''yards'']),
     (''mi'', 1609.344, [''mile'', ''miles''])]"

definition reg_mass :: "registry \<Rightarrow> registry" where
  "reg_mass = add_linear ''mass'' ''kg''
    [(''g'', 0.001, [''gram'', ''grams'']),
     (''mg'', 0.000001, [''milligram'', ''milligrams'']),
     (''lb'', 0.45359237, [''lbs'', ''pound'', ''pounds'']),
     (''oz'', 0.028349523125, [''ounce'', ''ounces'']),
     (''ton'', 1000, [''t'', ''tonne'', ''tonnes'', ''metric ton'', ''metric tons''])]"

definition reg_time :: "registry \<Rightarrow> registry" where
  "reg_time = add_linear ''time'' ''s''
    [(''ms'', 0.001, [''millisecond'', ''milliseconds'']),
     (mu @ ''s'', 0.000001, [''us'', ''microsecond'', ''microseconds'']),
     (''min'', 60, [''minute'', ''minutes'']),
     (''h'', 3600, [''hr'', ''hour'', ''hours'']),
     (''day'', 86400, [''days'', ''d''])]"

definition reg_speed :: "registry \<Rightarrow> registry" where
  "reg_speed =
     add ''speed'' ''kn'' (Some (1852 / 3600)) 0 None None [''knot'', ''knots'']
   \<circ> add ''speed'' ''ft/s'' (Some 0.3048) 0 None None
       [''fps'', ''foot/second'', ''feet/second'', ''ftps'']
   \<circ> add ''speed'' ''mph'' (Some (1609.344 / 3600)) 0 None None [''mile/hour'', ''miles/hour'']
   \<circ> add ''speed'' ''km/h'' (Some (1000 / 3600)) 0 None None
       [''kph'', ''kmph'', ''kilometer/hour'', ''kilometre/hour'']
   \<circ> add ''speed'' ''m/s'' (Some 1) 0 None None
       [''mps'', ''meter/second'', ''metre/second'', ''meters/second'', ''metres/second'']"

definition reg_pressure :: "registry \<Rightarrow> registry" where
  "reg_pressure = add_linear ''pressure'' ''Pa''
    [(''kPa'', 1000, []),
     (''bar'', 100000, []),
     (''mbar'', 100, [''millibar'', ''hPa'']),
     (''atm'', 101325, []),
     (''psi'', 6894.757293168, [''pound-force/in^2'', ''lb/in^2''])]"

definition reg_energy :: "registry \<Rightarrow> registry" where
  "reg_energy = add_linear ''energy'' ''J''
    [(''kJ'', 1000, []),
     (''Wh'', 3600, [''watt-hour'', ''watt hour'']),
     (''kWh'', 3600000, [''kilowatt-hour'', ''kilowatt hour'']),
     (''cal'', 4.184, [''small calorie'', ''calorie'']),
     (''kcal'', 4184, [''Cal'', ''food calorie'']),
     (''eV'', 1.602176634 / 10 ^ 19, [])]"

definition reg_power :: "registry \<Rightarrow> registry" where
  "reg_power = add_linear ''power'' ''W''
    [(''kW'', 1000, []),
     (''MW'', 1000000, []),
     (''hp'', 745.6998715822702, [''horsepower''])]"

definition reg_frequency :: "registry \<Rightarrow> registry" where
  "reg_frequency = add_linear ''frequency'' ''Hz''
    [(''kHz'', 1000, []),
     (''MHz'', 1000000, []),
     (''GHz'', 1000000000, []),
     (''rpm'', 1 / 60, [])]"

definition reg_area :: "registry \<Rightarrow> registry" where
  "reg_area = add_linear ''area'' ''m^2''
    [(''cm^2'', 0.0001, []),
     (''mm^2'', 0.000001, []),
     (''km^2'', 1000000, []),
     (''in^2'', 0.00064516, []),
     (''ft^2'', 0.09290304, []),
     (''yd^2'', 0.83612736, []),
     (''acre'', 4046.8564224, []),
     (''hectare'', 10000, [''ha''])]"

definition reg_volume :: "registry \<Rightarrow> registry" where
  "reg_volume = add_linear ''volume'' ''m^3''
    [(''L'', 0.001, [''liter'', ''litre'', ''liters'', ''litres'']),
     (''mL'', 0.000001, [''ml'', ''milliliter'', ''millilitre'']),
     (''cm^3'', 0.000001, [''cc'', ''cubic centimeter'', ''cubic centimetre'']),
     (''in^3'', 0.000016387064, [''cu in'']),
     (''ft^3'', 0.028316846592, [''cu ft'']),
     (''gal'', 0.003785411784, [''gallon'', ''gallons'', ''US gal'']),
     (''qt'', 0.000946352946, [''quart'', ''quarts'']),
     (''pt'', 0.000473176473, [''pint'', ''pints'']),
     (''fl oz'', 0.0000295735295625, [''fluid ounce'', ''fl. oz.''])]"

definition reg_data :: "registry \<Rightarrow> registry" where
  "reg_data = add_linear ''data'' ''B''
    [(''KB'', 1024, []), (''MB'', 1024 ^ 2, []), (''GB'', 1024 ^ 3, []),
     (''TB'', 1024 ^ 4, []), (''bit'', 1 / 8, [''b'']), (''Kb'', 1024 / 8, []),
     (''Mb'', 1024 ^ 2 / 8, []), (''Gb'', 1024 ^ 3 / 8, []), (''Tb'', 1024 ^ 4 / 8, [])]"

definition reg_angle :: "registry \<Rightarrow> registry" where
  "reg_angle =
     add ''angle'' ''turn'' (Some (2 * pi)) 0 None None [''rev'', ''revolution'']
   \<circ> add ''angle'' ''grad'' (Some (pi / 200)) 0 None None [''gon'', ''grade'']
   \<circ> add ''angle'' ''deg'' (Some (pi / 180)) 0 None None [''degree'', ''degrees'']
   \<circ> add ''angle'' ''rad'' (Some 1) 0 None None [''radian'', ''radians'']"

definition reg_temperature :: "registry \<Rightarrow> registry" where
  "reg_temperature =
     add ''temperature'' ''R'' None 0 (Some R_to_K) (Some K_to_R) [''rankine'', deg_sign @ ''R'']
   \<circ> add ''temperature'' ''F'' None 0 (Some F_to_K) (Some K_to_F)
       [deg_sign @ ''F'', ''fahrenheit'', ''degF'']
   \<circ> add ''temperature'' ''C'' None 0 (Some C_to_K) (Some K_to_C)
       [deg_sign @ ''C'', ''celsius'', ''degC'']
   \<circ> add ''temperature'' ''K'' None 0 (Some (\<lambda>x. x)) (Some (\<lambda>x. x))
       [''kelvin'', ''kelvins'', ''k'']"

definition ureg :: registry where
  \<comment> \<open>the module-level registrations, in the order of the file\<close>
  "ureg = fold (\<lambda>step r. step r)
     [reg_length, reg_mass, reg_time, reg_speed, reg_pressure, reg_energy, reg_power,
      reg_frequency, reg_area, reg_volume, reg_data, reg_angle, reg_temperature] []"

subsection \<open>Python syntax trees and values\<close>

text \<open>
  The trees that \<^verbatim>\<open>ast.parse(expr, mode='eval')\<close> yields (Python 3.8 and later, where
  every literal is a \<^verbatim>\<open>Constant\<close>). The expression classes that \<^verbatim>\<open>safe_eval\<close> names,
  attribute access and subscripting are constructors; every other expression class is
  \<open>OtherExpr\<close> with its class name: the walk rejects such a node before it reaches the
  node's children.
\<close>

datatype const =
    CInt int
  | CFloat real
  | CImag real
  | CStr string
  | CBytes string
  | CBool bool
  | CNone
  | CEllipsis

datatype binop =
  Add | Sub | Mult | MatMult | Div | Mod | Pow | LShift | RShift | BitOr | BitXor | BitAnd | FloorDiv

datatype unaryop = Invert | Not | UAdd | USub

datatype expr =
    BinOp expr binop expr
  | UnaryOp unaryop expr
  | Call expr "expr list" "(string option \<times> expr) list"
  | Constant const
  | Name string
  | Tuple "expr list"
  | ListDisplay "expr list"
  | Attribute expr string
  | Subscript expr expr
  | OtherExpr string

text \<open>The nodes that \<^verbatim>\<open>ast.walk\<close> visits: expressions, operators, contexts, keywords.\<close>

datatype node =
    Expression expr
  | E expr
  | BinopNode binop
  | UnaryopNode unaryop
  | Load
  | Keyword "string option" expr

datatype builtin = Sqrt | Sin bool | Cos bool | Tan bool | Abs | Round

datatype pyval =
    VInt int
  | VFloat real
  | VBool bool
  | VNone
  | VStr string
  | VBytes string
  | VTuple "pyval list"
  | VList "pyval list"
  | VFun builtin
  | VObj string

text \<open>
  \<open>VFun (Sin d)\<close> is \<^verbatim>\<open>math.sin\<close>, wrapped to take degrees when \<open>d\<close> holds.
  \<open>VObj\<close> is any other object an evaluation can yield (a complex number, Ellipsis, the
  empty dictionary bound to \<^verbatim>\<open>__builtins__\<close>); none of them converts to a float.
\<close>

record host =
  ast_parse :: "string \<Rightarrow> pyexn + expr"
  py_eval :: "(string \<times> pyval) list \<Rightarrow> expr \<Rightarrow> pyexn + pyval"
  float_of_str :: "string \<Rightarrow> pyexn + real"
  format_g :: "real \<Rightarrow> string"

text \<open>
  \<open>ast_parse h s\<close> is the body of \<^verbatim>\<open>ast.parse(s, mode='eval')\<close> or its exception;
  \<open>py_eval h names t\<close> is \<^verbatim>\<open>eval(compile(node, '<expr>', 'eval'), {'__builtins__': {}}, names)\<close>;
  \<open>float_of_str h s\<close> is \<^verbatim>\<open>float(s)\<close> on a string; \<open>format_g h x\<close> is \<^verbatim>\<open>f"{x:g}"\<close>.
\<close>

subsection \<open>\<^verbatim>\<open>safe_eval\<close>\<close>

fun iter_child_nodes :: "node \<Rightarrow> node list" where
  "iter_child_nodes (Expression e) = [E e]"
| "iter_child_nodes (E (BinOp l op r)) = [E l, BinopNode op, E r]"
| "iter_child_nodes (E (UnaryOp op e)) = [UnaryopNode op, E e]"
| "iter_child_nodes (E (Call f as ks)) = E f # map E as @ map (\<lambda>(k, v). Keyword k v) ks"
| "iter_child_nodes (E (Constant c)) = []"
| "iter_child_nodes (E (Name n)) = [Load]"
| "iter_child_nodes (E (Tuple es)) = map E es @ [Load]"
| "iter_child_nodes (E (ListDisplay es)) = map E es @ [Load]"
| "iter_child_nodes (E (Attribute e a)) = [E e, Load]"
| "iter_child_nodes (E (Subscript e i)) = [E e, E i, Load]"
| "iter_child_nodes (E (OtherExpr n)) = []"
| "iter_child_nodes (BinopNode op) = []"
| "iter_child_nodes (UnaryopNode op) = []"
| "iter_child_nodes Load = []"
| "iter_child_nodes (Keyword k v) = [E v]"

fun esize :: "expr \<Rightarrow> nat" where
  "esize (BinOp l op r) = 2 + esize l + esize r"
| "esize (UnaryOp op e) = 2 + esize e"
| "esize (Call f as ks) = 1 + esize f + sum_list (map esize as) + sum_list (map (\<lambda>p. 1 + esize (snd p)) ks)"
| "esize (Constant c) = 1"
| "esize (Name n) = 2"
| "esize (Tuple es) = 2 + sum_list (map esize es)"
| "esize (ListDisplay es) = 2 + sum_list (map esize es)"
| "esize (Attribute e a) = 2 + esize e"
| "esize (Subscript e i) = 2 + esize e + esize i"
| "esize (OtherExpr n) = 1"

fun nsize :: "node \<Rightarrow> nat" where
  \<comment> \<open>the number of nodes below and including a node\<close>
  "nsize (Expression e) = 1 + esize e"
| "nsize (E e) = esize e"
| "nsize (Keyword k v) = 1 + esize v"
| "nsize n = 1"

function walk :: "node list \<Rightarrow> node list" where
  \<comment> \<open>\<^verbatim>\<open>ast.walk\<close>: breadth first, from a queue\<close>
  "walk [] = []"
| "walk (n # todo) = n # walk (todo @ iter_child_nodes n)"
  by pat_completeness auto
termination
proof (relation "measure (\<lambda>q. sum_list (map nsize q))")
  show "wf (measure (\<lambda>q. sum_list (map nsize q)))" by simp
next
  fix n :: node and todo :: "node list"
  have k: "map (nsize \<circ> (\<lambda>(k, v). Keyword k v)) ks = map (\<lambda>p. 1 + esize (snd p)) ks" for ks
    by (induction ks) auto
  have e: "map (nsize \<circ> E) es = map esize es" for es
    by (induction es) auto
  have "nsize n = 1 + sum_list (map nsize (iter_child_nodes n))"
  proof (cases n)
    case (E x)
    show ?thesis unfolding E by (cases x) (simp_all add: k e)
  qed simp_all
  then show "(todo @ iter_child_nodes n, n # todo) \<in> measure (\<lambda>q. sum_list (map nsize q))"
    by simp
qed

fun node_class :: "node \<Rightarrow> string" where
  \<comment> \<open>\<^verbatim>\<open>type(n).__name__\<close>\<close>
  "node_class (Expression e) = ''Expression''"
| "node_class (E (BinOp l op r)) = ''BinOp''"
| "node_class (E (UnaryOp op e)) = ''UnaryOp''"
| "node_class (E (Call f as ks)) = ''Call''"
| "node_class (E (Constant c)) = ''Constant''"
| "node_class (E (Name n)) = ''Name''"
| "node_class (E (Tuple es)) = ''Tuple''"
| "node_class (E (ListDisplay es)) = ''List''"
| "node_class (E (Attribute e a)) = ''Attribute''"
| "node_class (E (Subscript e i)) = ''Subscript''"
| "node_class (E (OtherExpr n)) = n"
| "node_class (BinopNode op) =
     (case op of Add \<Rightarrow> ''Add'' | Sub \<Rightarrow> ''Sub'' | Mult \<Rightarrow> ''Mult'' | MatMult \<Rightarrow> ''MatMult''
      | Div \<Rightarrow> ''Div'' | Mod \<Rightarrow> ''Mod'' | Pow \<Rightarrow> ''Pow'' | LShift \<Rightarrow> ''LShift''
      | RShift \<Rightarrow> ''RShift'' | BitOr \<Rightarrow> ''BitOr'' | BitXor \<Rightarrow> ''BitXor''
      | BitAnd \<Rightarrow> ''BitAnd'' | FloorDiv \<Rightarrow> ''FloorDiv'')"
| "node_class (UnaryopNode op) =
     (case op of Invert \<Rightarrow> ''Invert'' | Not \<Rightarrow> ''Not'' | UAdd \<Rightarrow> ''UAdd'' | USub \<Rightarrow> ''USub'')"
| "node_class Load = ''Load''"
| "node_class (Keyword k v) = ''keyword''"

fun allowed_node :: "node \<Rightarrow> bool" where
  \<comment> \<open>\<^verbatim>\<open>isinstance(n, allowed_nodes)\<close>\<close>
  "allowed_node (Expression e) = True"
| "allowed_node (E (BinOp l op r)) = True"
| "allowed_node (E (UnaryOp op e)) = True"
| "allowed_node (E (Call f as ks)) = True"
| "allowed_node (E (Constant c)) = True"
| "allowed_node (E (Name n)) = True"
| "allowed_node (E (Tuple es)) = True"
| "allowed_node (E (ListDisplay es)) = True"
| "allowed_node (E (Attribute e a)) = False"
| "allowed_node (E (Subscript e i)) = False"
| "allowed_node (E (OtherExpr n)) = False"
| "allowed_node (BinopNode op) = (op \<in> {Add, Sub, Mult, Div, Pow, Mod, FloorDiv})"
| "allowed_node (UnaryopNode op) = (op \<in> {USub, UAdd})"
| "allowed_node Load = True"
| "allowed_node (Keyword k v) = False"

definition allowed_names :: "bool \<Rightarrow> (string \<times> pyval) list" where
  "allowed_names mode_deg =
     [(''pi'', VFloat pi), (''e'', VFloat (exp 1)),
      (''sqrt'', VFun Sqrt),
      (''sin'', VFun (Sin mode_deg)),
      (''cos'', VFun (Cos mode_deg)),
      (''tan'', VFun (Tan mode_deg)),
      (''abs'', VFun Abs), (''round'', VFun Round)]"

fun bad_call :: "string list \<Rightarrow> node \<Rightarrow> bool" where
  \<comment> \<open>a \<^verbatim>\<open>Call\<close> whose \<^verbatim>\<open>func\<close> is not a \<^verbatim>\<open>Name\<close> in \<^verbatim>\<open>allowed_names\<close>\<close>
  "bad_call names (E (Call (Name f) as ks)) = (f \<notin> set names)"
| "bad_call names (E (Call f as ks)) = True"
| "bad_call names n = False"

fun check_nodes :: "string list \<Rightarrow> node list \<Rightarrow> pyexn option" where
  \<comment> \<open>the loop over \<^verbatim>\<open>ast.walk(node)\<close>: the first offending node raises\<close>
  "check_nodes names [] = None"
| "check_nodes names (n # ns) =
     (if \<not> allowed_node n
      then Some (ValueError (''Disallowed expression element: '' @ node_class n))
      else if bad_call names n
      then Some (ValueError ''Only sqrt/sin/cos/tan/abs/round, pi, e are allowed.'')
      else check_nodes names ns)"

definition safe_eval :: "host \<Rightarrow> string \<Rightarrow> bool \<Rightarrow> pyexn + pyval" where
  "safe_eval h expr mode_deg =
     (case ast_parse h (replace_caret expr) of
        Inl e \<Rightarrow> Inl e
      | Inr body \<Rightarrow>
          (case check_nodes (map fst (allowed_names mode_deg)) (walk [Expression body]) of
             Some e \<Rightarrow> Inl e
           | None \<Rightarrow> py_eval h (allowed_names mode_deg) body))"

subsection \<open>\<^verbatim>\<open>parse_and_convert\<close>\<close>

definition py_float :: "host \<Rightarrow> pyval \<Rightarrow> pyexn + real" where
  \<comment> \<open>\<^verbatim>\<open>float(v)\<close>\<close>
  "py_float h v =
     (case v of
        VInt i \<Rightarrow> Inr (of_int i)
      | VFloat x \<Rightarrow> Inr x
      | VBool b \<Rightarrow> Inr (if b then 1 else 0)
      | VStr s \<Rightarrow> float_of_str h s
      | VBytes s \<Rightarrow> float_of_str h s
      | _ \<Rightarrow> Inl (TypeError ''float() argument must be a string or a real number''))"

definition eval_value :: "host \<Rightarrow> string \<Rightarrow> bool \<Rightarrow> pyexn + real" where
  \<comment> \<open>the \<^verbatim>\<open>try\<close> around \<^verbatim>\<open>float(safe_eval(...))\<close> and its \<^verbatim>\<open>except Exception\<close>\<close>
  "eval_value h val_expr deg_mode =
     (case (case safe_eval h val_expr deg_mode of Inl e \<Rightarrow> Inl e | Inr v \<Rightarrow> py_float h v) of
        Inr x \<Rightarrow> Inr x
      | Inl e \<Rightarrow> float_of_str h val_expr)"

definition parse_error :: pyexn where
  "parse_error = ValueError ''Could not parse expression. Try like: 3 ft to cm  |  5 kg in lb''"

definition category_error :: "string \<Rightarrow> string \<Rightarrow> pyexn" where
  "category_error u_from u_to =
     ValueError (''Cannot detect a common category for '' @ quoted u_from @ '' and ''
                 @ quoted u_to @ ''.'')"

definition unit_error :: pyexn where
  "unit_error = ValueError ''Unknown unit(s). Use --list to see categories/units.''"

type_synonym conversion = "real \<times> string \<times> string \<times> real \<times> string"

definition convert_units :: "real \<Rightarrow> string \<Rightarrow> string \<Rightarrow> pyexn + conversion" where
  \<comment> \<open>\<^verbatim>\<open>parse_and_convert\<close> from \<^verbatim>\<open>cat = ureg.detect_category(u_from, u_to)\<close> on\<close>
  "convert_units v u_from u_to =
     (case detect_category ureg u_from u_to of
        None \<Rightarrow> Inl (category_error u_from u_to)
      | Some cat \<Rightarrow>
          if cat = [] then Inl (category_error u_from u_to)
          else
            (case get ureg cat u_from of
               None \<Rightarrow> Inl unit_error
             | Some uf \<Rightarrow>
                 (case get ureg cat u_to of
                    None \<Rightarrow> Inl unit_error
                  | Some ut \<Rightarrow>
                      (case to_base uf v of
                         Inl e \<Rightarrow> Inl e
                       | Inr x_base \<Rightarrow>
                           (case from_base ut x_base of
                              Inl e \<Rightarrow> Inl e
                            | Inr y \<Rightarrow> Inr (v, name uf, cat, y, name ut))))))"

definition expr_groups :: "string \<Rightarrow> (string \<times> string \<times> string) option" where
  \<comment> \<open>\<^verbatim>\<open>EXPR_PAT.match(s)\<close> and its three groups, each stripped\<close>
  "expr_groups s =
     (case re_match EXPR_PAT s of
        None \<Rightarrow> None
      | Some m \<Rightarrow>
          (case (m ''value'', m ''from'', m ''to'') of
             (Some gv, Some gf, Some gt) \<Rightarrow> Some (strip gv, strip gf, strip gt)
           | _ \<Rightarrow> None))"

definition parse_and_convert :: "host \<Rightarrow> string \<Rightarrow> bool \<Rightarrow> pyexn + conversion" where
  "parse_and_convert h s deg_mode =
     (case expr_groups s of
        None \<Rightarrow> Inl parse_error
      | Some (val_expr, u_from, u_to) \<Rightarrow>
          (case eval_value h val_expr deg_mode of
             Inl e \<Rightarrow> Inl e
           | Inr v \<Rightarrow> convert_units v u_from u_to))"

subsection \<open>The loop of \<^verbatim>\<open>run_batch\<close>\<close>

definition arrow :: string where
  \<comment> \<open>the rightwards arrow, U+2192\<close>
  "arrow = [CHR 0xE2, CHR 0x86, CHR 0x92]"

definition result_line :: "host \<Rightarrow> conversion \<Rightarrow> string" where
  \<comment> \<open>\<^verbatim>\<open>f"{v:g} {uf} = {y:g} {ut}   [{cat}]"\<close>\<close>
  "result_line h r =
     (case r of (v, uf, cat, y, ut) \<Rightarrow>
        format_g h v @ '' '' @ uf @ '' = '' @ format_g h y @ '' '' @ ut @ ''   ['' @ cat @ '']'')"

definition error_line :: "string \<Rightarrow> pyexn \<Rightarrow> string" where
  "error_line line e = ''[error] '' @ line @ ''  '' @ arrow @ ''  '' @ exn_str e"

fun run_batch :: "host \<Rightarrow> bool \<Rightarrow> string list \<Rightarrow> string list \<Rightarrow> string list" where
  \<comment> \<open>\<^verbatim>\<open>for line in lines\<close>, with \<^verbatim>\<open>out_lines\<close> as the accumulator\<close>
  "run_batch h deg_mode out_lines [] = out_lines"
| "run_batch h deg_mode out_lines (line # lines) =
     (if strip line = [] then run_batch h deg_mode out_lines lines
      else run_batch h deg_mode
             (out_lines @ [case parse_and_convert h line deg_mode of
                             Inr r \<Rightarrow> result_line h r
                           | Inl e \<Rightarrow> error_line line e])
             lines)"

subsection \<open>Notions used in the statements and proofs\<close>

definition own :: "(registry \<Rightarrow> registry) \<Rightarrow> string \<Rightarrow> string \<Rightarrow> Unit option" where
  \<comment> \<open>what a block of registrations answers when it runs on the empty registry\<close>
  "own f c k = get (f []) c k"

definition layered :: "(registry \<Rightarrow> registry) \<Rightarrow> string \<Rightarrow> bool" where
  \<comment> \<open>a block of registrations that writes into the category \<open>c\<close> only, over what was there\<close>
  "layered f c = (\<forall>r c' k. get (f r) c' k =
      (if c' = c then (case own f c k of Some u \<Rightarrow> Some u | None \<Rightarrow> get r c' k)
       else get r c' k))"

text \<open>
  What a pattern denotes: \<open>denotes r c t c'\<close> holds when \<open>r\<close> can match the text
  \<open>t\<close>, taking the captures from \<open>c\<close> to \<open>c'\<close>. The anchors match the empty text.
\<close>

primrec denotes :: "rx \<Rightarrow> caps \<Rightarrow> string \<Rightarrow> caps \<Rightarrow> bool" where
  "denotes (Chr P) c t c' = (c' = c \<and> (\<exists>x. t = [x] \<and> P x))"
| "denotes (Lit l) c t c' = (c' = c \<and> length t = length l \<and> lower t = lower l)"
| "denotes (Seq a b) c t c' =
     (\<exists>t1 t2 cm. t = t1 @ t2 \<and> denotes a c t1 cm \<and> denotes b cm t2 c')"
| "denotes (Alt a b) c t c' = (denotes a c t c' \<or> denotes b c t c')"
| "denotes (Opt a) c t c' = (denotes a c t c' \<or> (t = [] \<and> c' = c))"
| "denotes (Star g P) c t c' = (c' = c \<and> list_all P t)"
| "denotes (Plus g P) c t c' = (c' = c \<and> t \<noteq> [] \<and> list_all P t)"
| "denotes (Grp n a) c t c' = (\<exists>cm. denotes a c t cm \<and> c' = cm(n \<mapsto> t))"
| "denotes Bos c t c' = (c' = c \<and> t = [])"
| "denotes Eos c t c' = (c' = c \<and> t = [])"

text \<open>
  A host for the closed examples. It agrees with CPython on the texts the examples use:
  decimal integer literals, identifiers, and three composite texts with their trees; it
  evaluates constants, names, displays and integer sums, differences and products. The theorems below that speak of a host
  \<open>h\<close> hold for every host.
\<close>

definition py_keywords :: "string list" where
  "py_keywords = [''False'', ''None'', ''True'', ''and'', ''as'', ''assert'', ''async'', ''await'',
     ''break'', ''class'', ''continue'', ''def'', ''del'', ''elif'', ''else'', ''except'',
     ''finally'', ''for'', ''from'', ''global'', ''if'', ''import'', ''in'', ''is'', ''lambda'',
     ''nonlocal'', ''not'', ''or'', ''pass'', ''raise'', ''return'', ''try'', ''while'', ''with'',
     ''yield'']"

definition decimal :: "string \<Rightarrow> nat" where
  "decimal s = foldl (\<lambda>n c. 10 * n + (code c - 48)) 0 s"

definition is_decimal_literal :: "string \<Rightarrow> bool" where
  "is_decimal_literal s = (s \<noteq> [] \<and> list_all is_digit s \<and> (hd s \<noteq> CHR ''0'' \<or> list_all (\<lambda>c. c = CHR ''0'') s))"

definition is_identifier :: "string \<Rightarrow> bool" where
  "is_identifier s = (s \<noteq> [] \<and> \<not> is_digit (hd s) \<and> list_all is_word s \<and> s \<notin> set py_keywords)"

definition sample_trees :: "(string \<times> expr) list" where
  "sample_trees =
     [(''(1, 2)'', Tuple [Constant (CInt 1), Constant (CInt 2)]),
      (''a.b1'', Attribute (Name ''a'') ''b1''),
      (''True*1'', BinOp (Constant (CBool True)) Mult (Constant (CInt 1)))]"

definition sample_parse :: "string \<Rightarrow> pyexn + expr" where
  "sample_parse s =
     (if is_decimal_literal s then Inr (Constant (CInt (int (decimal s))))
      else if is_identifier s then Inr (Name s)
      else (case map_of sample_trees s of
              Some t \<Rightarrow> Inr t
            | None \<Rightarrow> Inl (SyntaxError ''invalid syntax'')))"

primrec const_value :: "const \<Rightarrow> pyval" where
  "const_value (CInt i) = VInt i"
| "const_value (CFloat x) = VFloat x"
| "const_value (CImag x) = VObj ''complex''"
| "const_value (CStr s) = VStr s"
| "const_value (CBytes s) = VBytes s"
| "const_value (CBool b) = VBool b"
| "const_value CNone = VNone"
| "const_value CEllipsis = VObj ''Ellipsis''"

fun as_int :: "pyval \<Rightarrow> int option" where
  \<comment> \<open>the integers, \<^verbatim>\<open>bool\<close> being a subclass of \<^verbatim>\<open>int\<close>\<close>
  "as_int (VInt i) = Some i"
| "as_int (VBool b) = Some (if b then 1 else 0)"
| "as_int v = None"

definition int_binop :: "binop \<Rightarrow> pyval \<Rightarrow> pyval \<Rightarrow> pyexn + pyval" where
  \<comment> \<open>\<^verbatim>\<open>+\<close>, \<^verbatim>\<open>-\<close> and \<^verbatim>\<open>*\<close> on integers\<close>
  "int_binop op a b =
     (case (as_int a, as_int b) of
        (Some i, Some j) \<Rightarrow>
          (case op of
             Add \<Rightarrow> Inr (VInt (i + j))
           | Sub \<Rightarrow> Inr (VInt (i - j))
           | Mult \<Rightarrow> Inr (VInt (i * j))
           | _ \<Rightarrow> Inl (OtherError ''outside the sample''))
      | _ \<Rightarrow> Inl (OtherError ''outside the sample''))"

fun sample_eval :: "(string \<times> pyval) list \<Rightarrow> expr \<Rightarrow> pyexn + pyval" where
  "sample_eval names (Constant c) = Inr (const_value c)"
| "sample_eval names (BinOp l op r) =
     (case sample_eval names l of
        Inl e \<Rightarrow> Inl e
      | Inr a \<Rightarrow>
          (case sample_eval names r of
             Inl e \<Rightarrow> Inl e
           | Inr b \<Rightarrow> int_binop op a b))"
| "sample_eval names (Name n) =
     (case map_of names n of
        Some v \<Rightarrow> Inr v
      | None \<Rightarrow> Inl (NameError (''name '' @ quoted n @ '' is not defined'')))"
| "sample_eval names (Tuple es) =
     (let rs = map (sample_eval names) es
      in case find isl rs of
           Some r \<Rightarrow> Inl (projl r)
         | None \<Rightarrow> Inr (VTuple (map projr rs)))"
| "sample_eval names (ListDisplay es) =
     (let rs = map (sample_eval names) es
      in case find isl rs of
           Some r \<Rightarrow> Inl (projl r)
         | None \<Rightarrow> Inr (VList (map projr rs)))"
| "sample_eval names e = Inl (OtherError ''outside the sample'')"

definition sample_float :: "string \<Rightarrow> pyexn + real" where
  "sample_float s =
     (if s \<noteq> [] \<and> list_all is_digit s then Inr (real (decimal s))
      else Inl (ValueError (''could not convert string to float: '' @ quoted s)))"

definition sample_host :: host where
  "sample_host = \<lparr>ast_parse = sample_parse, py_eval = sample_eval,
                   float_of_str = sample_float, format_g = (\<lambda>x. ''#'')\<rparr>"

text \<open>
  \<open>literal_host h s n\<close>: the host reads the text \<open>s\<close> as the integer literal \<open>n\<close> and
  evaluates that literal to \<open>n\<close>, as CPython does for a decimal literal.
\<close>

definition literal_host :: "host \<Rightarrow> string \<Rightarrow> int \<Rightarrow> bool" where
  "literal_host h s n =
     (ast_parse h s = Inr (Constant (CInt n))
      \<and> (\<forall>names. py_eval h names (Constant (CInt n)) = Inr (VInt n)))"

text \<open>The nodes of a tree: the start node and, with a node, its children.\<close>

inductive_set nodes_of :: "node \<Rightarrow> node set" for start :: node where
  start: "start \<in> nodes_of start"
| child: "n \<in> nodes_of start \<Longrightarrow> m \<in> set (iter_child_nodes n) \<Longrightarrow> m \<in> nodes_of start"

definition ins :: "string \<Rightarrow> string list \<Rightarrow> string list" where
  \<comment> \<open>the keys of a dictionary after an assignment to the key \<open>c\<close>\<close>
  "ins c ks = (if c \<in> set ks then ks else ks @ [c])"

text \<open>A registry of two categories, for an example of detection.\<close>

definition two_categories :: registry where
  "two_categories = [(''a'', [''x'' \<mapsto> make_unit ''x'' (Some 1) 0 None None []]),
                     (''b'', [''x'' \<mapsto> make_unit ''x'' (Some 1) 0 None None [],
                              ''y'' \<mapsto> make_unit ''y'' (Some 2) 0 None None []])]"

text \<open>
  A class of characters is blind to case when a letter and its lower-case letter are both
  in it or both outside; a pattern is, when its classes are (its literals are matched
  without regard to case anyway). Two capture maps, and two continuations of the matcher,
  are related when they agree up to the case of letters.
\<close>

definition case_blind :: "(char \<Rightarrow> bool) \<Rightarrow> bool" where
  "case_blind P = (\<forall>x. P (lower_char x) = P x)"

primrec rx_blind :: "rx \<Rightarrow> bool" where
  "rx_blind (Chr P) = case_blind P"
| "rx_blind (Lit l) = True"
| "rx_blind (Seq a b) = (rx_blind a \<and> rx_blind b)"
| "rx_blind (Alt a b) = (rx_blind a \<and> rx_blind b)"
| "rx_blind (Opt a) = rx_blind a"
| "rx_blind (Star g P) = case_blind P"
| "rx_blind (Plus g P) = case_blind P"
| "rx_blind (Grp n a) = rx_blind a"
| "rx_blind Bos = True"
| "rx_blind Eos = True"

definition caps_rel :: "caps \<Rightarrow> caps \<Rightarrow> bool" where
  "caps_rel c c' = (\<forall>n. rel_option (\<lambda>a b. lower a = lower b) (c n) (c' n))"

definition krel :: "(caps \<Rightarrow> string \<Rightarrow> caps option) \<Rightarrow> (caps \<Rightarrow> string \<Rightarrow> caps option) \<Rightarrow> bool" where
  "krel k k' = (\<forall>c c' s s'. caps_rel c c' \<longrightarrow> lower s = lower s' \<longrightarrow> rel_option caps_rel (k c s) (k' c' s'))"

section \<open>Properties\<close>

subsection \<open>Looking units up\<close>

lemmas text_defs = code_def is_space_def is_digit_def is_upper_def is_lower_def is_word_def
  lower_char_def lower_def

lemmas regs = reg_length_def reg_mass_def reg_time_def reg_speed_def reg_pressure_def
  reg_energy_def reg_power_def reg_frequency_def reg_area_def reg_volume_def reg_data_def
  reg_angle_def reg_temperature_def add_linear_def mu_def deg_sign_def

lemma register_apply:
  "register u keys cat x = (if x \<in> set (map lower keys) then Some u else cat x)"
  unfolding register_def by (induction keys arbitrary: cat) auto

lemma get_add:
  "get (add c nm f b tb fb als r) c' k =
     (if c' = c
      then (if lower k \<in> set (map lower (nm # als)) then Some (make_unit nm f b tb fb als)
            else get r c' k)
      else get r c' k)"
  by (auto simp: get_def add_def update_conv' register_apply setdefault_def split: option.splits)

lemma get_empty: "get [] c k = None"
  by (simp add: get_def)

lemma name_make_unit: "name (make_unit nm f b tb fb als) = nm"
  by (simp add: make_unit_def)

lemma linear_make_unit:
  "to_base (make_unit nm (Some f) b None None als) x = Inr ((x - b) * f)"
  "f \<noteq> 0 \<Longrightarrow> from_base (make_unit nm (Some f) b None None als) x = Inr (x / f + b)"
  "from_base (make_unit nm (Some 0) b None None als) x = Inl (ZeroDivisionError ''float division by zero'')"
  by (simp_all add: make_unit_def linear_to_base_def linear_from_base_def)

lemma custom_make_unit:
  "to_base (make_unit nm f b (Some g) (Some g') als) x = Inr (g x)"
  "from_base (make_unit nm f b (Some g) (Some g') als) x = Inr (g' x)"
  by (simp_all add: make_unit_def callable_def)

lemma layered_add: "layered (add c nm f b tb fb als) c"
  by (simp add: layered_def own_def get_add get_empty)

lemma layered_comp:
  assumes f: "layered f c" and g: "layered g c"
  shows "layered (f \<circ> g) c"
proof -
  have F: "get (f r) c' k =
      (if c' = c then (case own f c k of Some u \<Rightarrow> Some u | None \<Rightarrow> get r c' k)
       else get r c' k)" for r c' k
    using f unfolding layered_def by blast
  have G: "get (g r) c' k =
      (if c' = c then (case own g c k of Some u \<Rightarrow> Some u | None \<Rightarrow> get r c' k)
       else get r c' k)" for r c' k
    using g unfolding layered_def by blast
  have O: "own (f \<circ> g) c k = (case own f c k of Some u \<Rightarrow> Some u | None \<Rightarrow> own g c k)" for k
  proof -
    have "own (f \<circ> g) c k = get (f (g [])) c k" by (simp add: own_def)
    also have "\<dots> = (case own f c k of Some u \<Rightarrow> Some u | None \<Rightarrow> get (g []) c k)"
      by (simp add: F)
    also have "get (g []) c k = own g c k" by (simp add: own_def)
    finally show ?thesis .
  qed
  show ?thesis
    unfolding layered_def
  proof (intro allI)
    fix r c' k
    show "get ((f \<circ> g) r) c' k =
      (if c' = c then (case own (f \<circ> g) c k of Some u \<Rightarrow> Some u | None \<Rightarrow> get r c' k)
       else get r c' k)"
      by (cases "own f c k") (auto simp: F G O split: option.splits)
  qed
qed

lemma layered_fold:
  "layered g c \<Longrightarrow> (\<And>p. p \<in> set ps \<Longrightarrow> layered (step p) c)
     \<Longrightarrow> layered (\<lambda>r. fold step ps (g r)) c"
proof (induction ps arbitrary: g)
  case Nil
  then show ?case by simp
next
  case (Cons p ps)
  have "layered (step p \<circ> g) c"
    using Cons.prems by (intro layered_comp) auto
  from Cons.IH[OF this] Cons.prems(2) show ?case by (simp add: o_def)
qed

lemma layered_add_linear: "layered (add_linear c b ps) c"
proof -
  have "layered (\<lambda>r. fold (\<lambda>(nm, factor, als). add c nm (Some factor) 0 None None als) ps
          (add c b (Some 1) 0 None None [b] r)) c"
    by (rule layered_fold) (auto simp: layered_add)
  then show ?thesis by (simp add: add_linear_def[abs_def])
qed

lemma layeredD:
  "layered f c \<Longrightarrow> get (f r) c' k =
      (if c' = c then (case own f c k of Some u \<Rightarrow> Some u | None \<Rightarrow> get r c' k)
       else get r c' k)"
  by (simp add: layered_def)

lemma layered_regs:
  "layered reg_length ''length''" "layered reg_mass ''mass''" "layered reg_time ''time''"
  "layered reg_speed ''speed''" "layered reg_pressure ''pressure''" "layered reg_energy ''energy''"
  "layered reg_power ''power''" "layered reg_frequency ''frequency''" "layered reg_area ''area''"
  "layered reg_volume ''volume''" "layered reg_data ''data''" "layered reg_angle ''angle''"
  "layered reg_temperature ''temperature''"
  unfolding reg_length_def reg_mass_def reg_time_def reg_speed_def reg_pressure_def
    reg_energy_def reg_power_def reg_frequency_def reg_area_def reg_volume_def reg_data_def
    reg_angle_def reg_temperature_def
  by (intro layered_add_linear layered_comp layered_add)+

lemma get_ureg:
  "get ureg ''length'' k = own reg_length ''length'' k"
  "get ureg ''mass'' k = own reg_mass ''mass'' k"
  "get ureg ''time'' k = own reg_time ''time'' k"
  "get ureg ''speed'' k = own reg_speed ''speed'' k"
  "get ureg ''pressure'' k = own reg_pressure ''pressure'' k"
  "get ureg ''energy'' k = own reg_energy ''energy'' k"
  "get ureg ''power'' k = own reg_power ''power'' k"
  "get ureg ''frequency'' k = own reg_frequency ''frequency'' k"
  "get ureg ''area'' k = own reg_area ''area'' k"
  "get ureg ''volume'' k = own reg_volume ''volume'' k"
  "get ureg ''data'' k = own reg_data ''data'' k"
  "get ureg ''angle'' k = own reg_angle ''angle'' k"
  "get ureg ''temperature'' k = own reg_temperature ''temperature'' k"
  by (simp_all add: ureg_def layered_regs[THEN layeredD] get_empty split: option.splits)

lemmas lookup = get_ureg own_def regs get_add get_empty name_make_unit text_defs

lemmas rx_defs = expr_groups_def re_match_def EXPR_PAT_def seqs_def value_char_def from_first_def
  not_09_def dot_def star_def one_def ci_prefix_def strip_def

lemmas sample_defs = sample_host_def sample_parse_def sample_float_def is_decimal_literal_def
  is_identifier_def decimal_def py_keywords_def sample_trees_def

lemma sample_literal: "literal_host sample_host ''3'' 3" "literal_host sample_host ''32'' 32"
    "literal_host sample_host ''1'' 1"
  by (simp_all add: literal_host_def sample_defs text_defs)

subsection \<open>The matcher is sound for the pattern's denotation\<close>

lemma star_greedy_sound:
  "star_greedy P k s = Some r \<Longrightarrow> \<exists>t s'. s = t @ s' \<and> list_all P t \<and> k s' = Some r"
proof (induction s)
  case Nil
  then show ?case by simp
next
  case (Cons x xs)
  show ?case
  proof (cases "P x \<and> star_greedy P k xs = Some r")
    case True
    with Cons.IH obtain t s' where "xs = t @ s'" "list_all P t" "k s' = Some r" by blast
    with True have "x # xs = (x # t) @ s' \<and> list_all P (x # t) \<and> k s' = Some r" by simp
    then show ?thesis by blast
  next
    case False
    with Cons.prems have "k (x # xs) = Some r" by (auto split: if_splits option.splits)
    then have "x # xs = [] @ (x # xs) \<and> list_all P [] \<and> k (x # xs) = Some r" by simp
    then show ?thesis by blast
  qed
qed

lemma star_lazy_sound:
  "star_lazy P k s = Some r \<Longrightarrow> \<exists>t s'. s = t @ s' \<and> list_all P t \<and> k s' = Some r"
proof (induction s)
  case Nil
  then show ?case by simp
next
  case (Cons x xs)
  show ?case
  proof (cases "k (x # xs) = Some r")
    case True
    then have "x # xs = [] @ (x # xs) \<and> list_all P [] \<and> k (x # xs) = Some r" by simp
    then show ?thesis by blast
  next
    case False
    with Cons.prems have "P x" "star_lazy P k xs = Some r"
      by (auto split: if_splits option.splits)
    with Cons.IH obtain t s' where "xs = t @ s'" "list_all P t" "k s' = Some r" by blast
    with \<open>P x\<close> have "x # xs = (x # t) @ s' \<and> list_all P (x # t) \<and> k s' = Some r" by simp
    then show ?thesis by blast
  qed
qed

lemma star_sound:
  "star g P k s = Some r \<Longrightarrow> \<exists>t s'. s = t @ s' \<and> list_all P t \<and> k s' = Some r"
  by (cases g) (auto simp: star_def dest: star_greedy_sound star_lazy_sound)

lemma one_sound:
  "one P k s = Some r \<Longrightarrow> \<exists>x s'. s = x # s' \<and> P x \<and> k s' = Some r"
  by (auto simp: one_def split: list.splits if_splits)

lemma rmatch_sound:
  "rmatch inp r k c s = Some res \<Longrightarrow>
     \<exists>t s' c'. s = t @ s' \<and> denotes r c t c' \<and> k c' s' = Some res"
proof (induction r arbitrary: k c s)
  case (Chr P)
  then obtain x s' where "s = x # s'" "P x" "k c s' = Some res"
    by (auto dest: one_sound)
  then have "s = [x] @ s' \<and> denotes (Chr P) c [x] c \<and> k c s' = Some res" by simp
  then show ?case by blast
next
  case (Lit l)
  then have h: "ci_prefix l s" "k c (drop (length l) s) = Some res"
    by (auto split: if_splits)
  then have "s = take (length l) s @ drop (length l) s
      \<and> denotes (Lit l) c (take (length l) s) c \<and> k c (drop (length l) s) = Some res"
    by (simp add: ci_prefix_def)
  then show ?case by blast
next
  case (Seq a b)
  from Seq.prems have "rmatch inp a (rmatch inp b k) c s = Some res" by simp
  from Seq.IH(1)[OF this] obtain t1 s1 c1 where
    a: "s = t1 @ s1" "denotes a c t1 c1" "rmatch inp b k c1 s1 = Some res" by blast
  from Seq.IH(2)[OF a(3)] obtain t2 s2 c2 where
    b: "s1 = t2 @ s2" "denotes b c1 t2 c2" "k c2 s2 = Some res" by blast
  from a b have "s = (t1 @ t2) @ s2 \<and> denotes (Seq a b) c (t1 @ t2) c2 \<and> k c2 s2 = Some res"
    by auto
  then show ?case by blast
next
  case (Alt a b)
  then have "rmatch inp a k c s = Some res \<or> rmatch inp b k c s = Some res"
    by (auto split: option.splits)
  then show ?case using Alt.IH by fastforce
next
  case (Opt a)
  then have "rmatch inp a k c s = Some res \<or> k c s = Some res"
    by (auto split: option.splits)
  then show ?case
  proof
    assume "rmatch inp a k c s = Some res"
    from Opt.IH[OF this] show ?thesis by fastforce
  next
    assume "k c s = Some res"
    then have "s = [] @ s \<and> denotes (Opt a) c [] c \<and> k c s = Some res" by simp
    then show ?thesis by blast
  qed
next
  case (Star g P)
  then obtain t s' where "s = t @ s'" "list_all P t" "k c s' = Some res"
    by (auto dest: star_sound)
  then have "s = t @ s' \<and> denotes (Star g P) c t c \<and> k c s' = Some res" by simp
  then show ?case by blast
next
  case (Plus g P)
  then obtain x s1 where x: "s = x # s1" "P x" "star g P (k c) s1 = Some res"
    by (auto dest: one_sound)
  then obtain t s' where "s1 = t @ s'" "list_all P t" "k c s' = Some res"
    by (auto dest: star_sound)
  with x have "s = (x # t) @ s' \<and> denotes (Plus g P) c (x # t) c \<and> k c s' = Some res" by simp
  then show ?case by blast
next
  case (Grp n a)
  from Grp.prems have
    "rmatch inp a (\<lambda>c' s'. k (c'(n \<mapsto> take (length s - length s') s)) s') c s = Some res"
    by simp
  from Grp.IH[OF this] obtain t s' cm where
    g: "s = t @ s'" "denotes a c t cm" "k (cm(n \<mapsto> take (length s - length s') s)) s' = Some res"
    by blast
  from g(1) have "take (length s - length s') s = t" by simp
  with g have "s = t @ s' \<and> denotes (Grp n a) c t (cm(n \<mapsto> t)) \<and> k (cm(n \<mapsto> t)) s' = Some res"
    by auto
  then show ?case by blast
next
  case Bos
  then have "k c s = Some res" by (auto split: if_splits)
  then have "s = [] @ s \<and> denotes Bos c [] c \<and> k c s = Some res" by simp
  then show ?case by blast
next
  case Eos
  then have "k c s = Some res" by (auto split: if_splits)
  then have "s = [] @ s \<and> denotes Eos c [] c \<and> k c s = Some res" by simp
  then show ?case by blast
qed

lemma re_match_sound:
  "re_match r s = Some c \<Longrightarrow> \<exists>t s'. s = t @ s' \<and> denotes r Map.empty t c"
  unfolding re_match_def by (drule rmatch_sound) auto

lemma EXPR_PAT_groups:
  assumes "re_match EXPR_PAT s = Some c"
  shows "\<exists>v x f t. c ''value'' = Some v \<and> c ''from'' = Some (x # f) \<and> c ''to'' = Some t
           \<and> v \<noteq> [] \<and> list_all value_char v \<and> from_first x \<and> list_all not_09 f
           \<and> t \<noteq> [] \<and> list_all dot t"
proof -
  from re_match_sound[OF assms] obtain t s' where "denotes EXPR_PAT Map.empty t c" by blast
  then show ?thesis
    apply (simp add: EXPR_PAT_def seqs_def)
    apply (elim exE conjE disjE)
     apply simp_all
    done
qed

lemma set_strip: "set (strip s) \<subseteq> set s"
proof
  fix x assume "x \<in> set (strip s)"
  then have "x \<in> set (dropWhile is_space (rev (dropWhile is_space s)))"
    by (simp add: strip_def)
  then have "x \<in> set (rev (dropWhile is_space s))" by (rule set_dropWhileD)
  then have "x \<in> set (dropWhile is_space s)" by simp
  then show "x \<in> set s" by (rule set_dropWhileD)
qed

lemma expr_groups_from:
  assumes "expr_groups s = Some (v, f, t)"
  shows "\<forall>c\<in>set f. \<not> is_digit c"
proof -
  from assms obtain m where m: "re_match EXPR_PAT s = Some m"
    by (auto simp: expr_groups_def split: option.splits)
  from EXPR_PAT_groups[OF m] obtain x fr where fr: "m ''from'' = Some (x # fr)"
    "from_first x" "list_all not_09 fr" by blast
  with assms m have "f = strip (x # fr)"
    by (auto simp: expr_groups_def split: option.splits)
  moreover have "\<forall>c\<in>set (x # fr). \<not> is_digit c"
    using fr by (auto simp: from_first_def not_09_def list_all_iff)
  ultimately show ?thesis using set_strip by blast
qed

subsection \<open>The walk reaches every node, and the check rejects\<close>

lemma walk_queue: "n \<in> set q \<Longrightarrow> n \<in> set (walk q)"
  by (induction q arbitrary: n rule: walk.induct) auto

lemma walk_children:
  "n \<in> set (walk q) \<Longrightarrow> m \<in> set (iter_child_nodes n) \<Longrightarrow> m \<in> set (walk q)"
proof (induction q rule: walk.induct)
  case 1
  then show ?case by simp
next
  case (2 x todo)
  show ?case
  proof (cases "n = x")
    case True
    with 2(3) have "m \<in> set (todo @ iter_child_nodes x)" by simp
    then show ?thesis using walk_queue by fastforce
  next
    case False
    with 2 show ?thesis by auto
  qed
qed

lemma nodes_of_walk: "n \<in> nodes_of start \<Longrightarrow> n \<in> set (walk [start])"
  by (induction rule: nodes_of.induct) (auto intro: walk_queue walk_children)

lemma check_nodes_rejects:
  "n \<in> set ns \<Longrightarrow> \<not> allowed_node n \<or> bad_call names n
     \<Longrightarrow> \<exists>m. check_nodes names ns = Some (ValueError m)"
  by (induction ns) auto

lemma safe_eval_rejects:
  assumes "ast_parse h (replace_caret expr) = Inr body"
    and "n \<in> nodes_of (Expression body)"
    and "\<not> allowed_node n \<or> bad_call (map fst (allowed_names mode_deg)) n"
  shows "\<exists>m. safe_eval h expr mode_deg = Inl (ValueError m)
             \<and> (\<forall>ev. safe_eval (h\<lparr>py_eval := ev\<rparr>) expr mode_deg = Inl (ValueError m))"
proof -
  from nodes_of_walk[OF assms(2)] assms(3) obtain m where
    "check_nodes (map fst (allowed_names mode_deg)) (walk [Expression body]) = Some (ValueError m)"
    using check_nodes_rejects by blast
  with assms(1) show ?thesis by (simp add: safe_eval_def)
qed

subsection \<open>Category detection on the seed table\<close>

lemma ins_idem: "ins c (ins c ks) = ins c ks"
  by (simp add: ins_def)

lemma keys_add: "map fst (add c nm f b tb fb als r) = ins c (map fst r)"
  by (simp add: add_def update_keys ins_def)

lemma keys_fold_add:
  "map fst (fold (\<lambda>(nm, factor, als). add c nm (Some factor) 0 None None als) ps r)
     = (if ps = [] then map fst r else ins c (map fst r))"
proof (induction ps arbitrary: r)
  case Nil
  then show ?case by simp
next
  case (Cons p ps)
  obtain nm factor als where p: "p = (nm, factor, als)" by (cases p)
  show ?case by (simp add: Cons.IH p keys_add ins_idem)
qed

lemma keys_add_linear: "map fst (add_linear c b ps r) = ins c (map fst r)"
  by (simp add: add_linear_def keys_fold_add keys_add ins_idem)

lemma keys_regs:
  "map fst (reg_length r) = ins ''length'' (map fst r)"
  "map fst (reg_mass r) = ins ''mass'' (map fst r)"
  "map fst (reg_time r) = ins ''time'' (map fst r)"
  "map fst (reg_speed r) = ins ''speed'' (map fst r)"
  "map fst (reg_pressure r) = ins ''pressure'' (map fst r)"
  "map fst (reg_energy r) = ins ''energy'' (map fst r)"
  "map fst (reg_power r) = ins ''power'' (map fst r)"
  "map fst (reg_frequency r) = ins ''frequency'' (map fst r)"
  "map fst (reg_area r) = ins ''area'' (map fst r)"
  "map fst (reg_volume r) = ins ''volume'' (map fst r)"
  "map fst (reg_data r) = ins ''data'' (map fst r)"
  "map fst (reg_angle r) = ins ''angle'' (map fst r)"
  "map fst (reg_temperature r) = ins ''temperature'' (map fst r)"
  unfolding reg_length_def reg_mass_def reg_time_def reg_speed_def reg_pressure_def
    reg_energy_def reg_power_def reg_frequency_def reg_area_def reg_volume_def reg_data_def
    reg_angle_def reg_temperature_def
  by (simp_all add: keys_add_linear keys_add ins_idem)

lemma keys_ureg:
  "map fst ureg = [''length'', ''mass'', ''time'', ''speed'', ''pressure'', ''energy'', ''power'',
     ''frequency'', ''area'', ''volume'', ''data'', ''angle'', ''temperature'']"
  by (simp add: ureg_def keys_regs) (simp add: ins_def)

lemma detect_find:
  "distinct (map fst r) \<Longrightarrow>
     detect_category r a b = find (\<lambda>c. get r c a \<noteq> None \<and> get r c b \<noteq> None) (map fst r)"
proof (induction r)
  case Nil
  then show ?case by (simp add: detect_category_def)
next
  case (Cons p r)
  obtain c u where p: "p = (c, u)" by (cases p)
  from Cons.prems p have d: "distinct (map fst r)" and c: "c \<notin> fst ` set r" by auto
  have same: "find (\<lambda>c'. get (p # r) c' a \<noteq> None \<and> get (p # r) c' b \<noteq> None) (map fst r)
      = find (\<lambda>c'. get r c' a \<noteq> None \<and> get r c' b \<noteq> None) (map fst r)"
    using c by (intro find_cong) (auto simp: get_def p)
  show ?case
    using Cons.IH[OF d] same by (simp add: detect_category_def p get_def)
qed

lemma detect_ureg:
  "detect_category ureg a b = find (\<lambda>c. get ureg c a \<noteq> None \<and> get ureg c b \<noteq> None)
     [''length'', ''mass'', ''time'', ''speed'', ''pressure'', ''energy'', ''power'',
      ''frequency'', ''area'', ''volume'', ''data'', ''angle'', ''temperature'']"
proof -
  have "distinct (map fst ureg)" by (simp add: keys_ureg)
  from detect_find[OF this] show ?thesis by (simp add: keys_ureg)
qed

subsection \<open>Evaluating the examples\<close>

lemma eval_value_literal:
  assumes "literal_host h s n" and "replace_caret s = s"
  shows "eval_value h s deg = Inr (of_int n)"
  using assms
  by (simp add: eval_value_def safe_eval_def literal_host_def py_float_def)

lemma parse_and_convert_groups:
  "expr_groups s = Some (v, f, t) \<Longrightarrow> eval_value h v deg = Inr x
     \<Longrightarrow> parse_and_convert h s deg = convert_units x f t"
  by (simp add: parse_and_convert_def)

lemma parse_and_convert_no_match:
  "expr_groups s = None \<Longrightarrow> parse_and_convert h s deg = Inl parse_error"
  by (simp add: parse_and_convert_def)

lemmas conv = convert_units_def detect_ureg lookup linear_make_unit custom_make_unit

lemma groups_examples:
  "expr_groups ''3 ft to cm'' = Some (''3'', ''ft'', ''cm'')"
  "expr_groups ''3 FT to CM'' = Some (''3'', ''FT'', ''CM'')"
  "expr_groups ''3 feet to centimeters'' = Some (''3'', ''feet'', ''centimeters'')"
  "expr_groups ''1 kilometer to m'' = Some (''1'', ''kilometer'', ''m'')"
  "expr_groups ''1 km to m'' = Some (''1'', ''km'', ''m'')"
  "expr_groups ''32 F to C'' = Some (''32'', ''F'', ''C'')"
  "expr_groups ''1 m to kg'' = Some (''1'', ''m'', ''kg'')"
  "expr_groups ''1 cc to L'' = Some (''1'', ''cc'', ''L'')"
  "expr_groups ''1 cm^3 to L'' = None"
  "expr_groups ''1 m^2 to ft^2'' = None"
  "expr_groups ''# note'' = None"
  "expr_groups ''__import__('os') to m'' = Some (''_'', ''_import__('os')'', ''m'')"
  "expr_groups ''a.b1 m to cm'' = Some (''a.b1'', ''m'', ''cm'')"
  by (simp_all add: rx_defs text_defs)

lemma convert_examples:
  "convert_units 3 ''ft'' ''cm'' = Inr (3, ''ft'', ''length'', 91.44, ''cm'')"
  "convert_units 3 ''FT'' ''CM'' = Inr (3, ''ft'', ''length'', 91.44, ''cm'')"
  "convert_units 3 ''feet'' ''centimeters'' = Inr (3, ''ft'', ''length'', 91.44, ''cm'')"
  "convert_units 1 ''kilometer'' ''m'' = Inr (1, ''km'', ''length'', 1000, ''m'')"
  "convert_units 1 ''km'' ''m'' = Inr (1, ''km'', ''length'', 1000, ''m'')"
  "convert_units 32 ''F'' ''C'' = Inr (32, ''F'', ''temperature'', 0, ''C'')"
  "convert_units 1 ''m'' ''kg'' = Inl (category_error ''m'' ''kg'')"
  "convert_units 1 ''cc'' ''L'' = Inr (1, ''cm^3'', ''volume'', 1 / 1000, ''L'')"
  by (simp_all add: conv F_to_K_def K_to_C_def)

lemma convert_injection: "\<exists>e. convert_units x ''_import__('os')'' ''m'' = Inl e"
  by (simp add: conv)

lemma detect_loop_first:
  "detect_loop r al bl = Some c \<Longrightarrow>
     \<exists>i<length r. fst (r ! i) = c \<and> snd (r ! i) al \<noteq> None \<and> snd (r ! i) bl \<noteq> None
        \<and> (\<forall>j<i. snd (r ! j) al = None \<or> snd (r ! j) bl = None)"
proof (induction r)
  case Nil
  then show ?case by simp
next
  case (Cons p r)
  obtain c' u where p: "p = (c', u)" by (cases p)
  show ?case
  proof (cases "u al \<noteq> None \<and> u bl \<noteq> None")
    case True
    with Cons.prems p have "c' = c" by simp
    with True p have "0 < length (p # r) \<and> fst ((p # r) ! 0) = c \<and> snd ((p # r) ! 0) al \<noteq> None
        \<and> snd ((p # r) ! 0) bl \<noteq> None
        \<and> (\<forall>j<0. snd ((p # r) ! j) al = None \<or> snd ((p # r) ! j) bl = None)" by simp
    then show ?thesis by blast
  next
    case False
    with Cons.prems p have "detect_loop r al bl = Some c" by auto
    from Cons.IH[OF this] obtain i where i: "i < length r" "fst (r ! i) = c"
      "snd (r ! i) al \<noteq> None" "snd (r ! i) bl \<noteq> None"
      "\<forall>j<i. snd (r ! j) al = None \<or> snd (r ! j) bl = None" by blast
    have "\<forall>j<Suc i. snd ((p # r) ! j) al = None \<or> snd ((p # r) ! j) bl = None"
    proof (intro allI impI)
      fix j assume "j < Suc i"
      then show "snd ((p # r) ! j) al = None \<or> snd ((p # r) ! j) bl = None"
        using False i(5) p by (cases j) auto
    qed
    with i have "Suc i < length (p # r) \<and> fst ((p # r) ! Suc i) = c
        \<and> snd ((p # r) ! Suc i) al \<noteq> None \<and> snd ((p # r) ! Suc i) bl \<noteq> None
        \<and> (\<forall>j<Suc i. snd ((p # r) ! j) al = None \<or> snd ((p # r) ! j) bl = None)" by simp
    then show ?thesis by blast
  qed
qed

lemma detect_loop_none:
  "detect_loop r al bl = None \<longleftrightarrow> (\<forall>i<length r. snd (r ! i) al = None \<or> snd (r ! i) bl = None)"
proof (induction r)
  case Nil
  then show ?case by simp
next
  case (Cons p r)
  obtain c' u where p: "p = (c', u)" by (cases p)
  show ?case
    unfolding p using Cons.IH
    by (auto simp: nth_Cons split: nat.splits)
qed

lemma sample_attribute:
  "ast_parse sample_host (replace_caret ''a.b1'') = Inr (Attribute (Name ''a'') ''b1'')"
  "E (Attribute (Name ''a'') ''b1'') \<in> nodes_of (Expression (Attribute (Name ''a'') ''b1''))"
  "\<not> allowed_node (E (Attribute (Name ''a'') ''b1''))"
  "float_of_str sample_host ''a.b1'' = Inl (ValueError (''could not convert string to float: '' @ quoted ''a.b1''))"
proof -
  show "ast_parse sample_host (replace_caret ''a.b1'') = Inr (Attribute (Name ''a'') ''b1'')"
    by (simp add: sample_defs text_defs)
  have "E (Attribute (Name ''a'') ''b1'')
      \<in> set (iter_child_nodes (Expression (Attribute (Name ''a'') ''b1'')))" by simp
  with nodes_of.start
  show "E (Attribute (Name ''a'') ''b1'') \<in> nodes_of (Expression (Attribute (Name ''a'') ''b1''))"
    by (rule nodes_of.child)
  show "\<not> allowed_node (E (Attribute (Name ''a'') ''b1''))" by simp
  show "float_of_str sample_host ''a.b1''
      = Inl (ValueError (''could not convert string to float: '' @ quoted ''a.b1''))"
    by (simp add: sample_defs text_defs)
qed

lemma eval_value_rejected:
  assumes "ast_parse h (replace_caret v) = Inr body"
    and "n \<in> nodes_of (Expression body)"
    and "\<not> allowed_node n \<or> bad_call (map fst (allowed_names deg)) n"
  shows "eval_value h v deg = float_of_str h v"
    and "eval_value (h\<lparr>py_eval := ev\<rparr>) v deg = float_of_str h v"
proof -
  from safe_eval_rejects[OF assms] obtain m where
    m: "safe_eval h v deg = Inl (ValueError m)"
       "\<forall>ev. safe_eval (h\<lparr>py_eval := ev\<rparr>) v deg = Inl (ValueError m)" by blast
  show "eval_value h v deg = float_of_str h v"
    by (simp add: eval_value_def m(1))
  show "eval_value (h\<lparr>py_eval := ev\<rparr>) v deg = float_of_str h v"
    using m(2) by (simp add: eval_value_def)
qed

lemma parse_and_convert_eval_error:
  "expr_groups s = Some (v, f, t) \<Longrightarrow> eval_value h v deg = Inl e
     \<Longrightarrow> parse_and_convert h s deg = Inl e"
  by (simp add: parse_and_convert_def)

lemma run_batch_map:
  "run_batch h deg out lines =
     out @ map (\<lambda>line. case parse_and_convert h line deg of
                         Inr r \<Rightarrow> result_line h r | Inl e \<Rightarrow> error_line line e)
             (filter (\<lambda>line. strip line \<noteq> []) lines)"
  by (induction lines arbitrary: out) auto

subsection \<open>Rounding to doubles, evaluated\<close>

lemma pow2_powr: "pow2 k = 2 powr (of_int k)"
  by (simp add: pow2_def powr_int)

lemma pow2_pos: "0 < pow2 k"
  by (simp add: pow2_def)

lemma floor_log2:
  assumes "pow2 k \<le> \<bar>x\<bar>" and "\<bar>x\<bar> < pow2 (k + 1)"
  shows "\<lfloor>log 2 \<bar>x\<bar>\<rfloor> = k"
proof -
  have p: "0 < \<bar>x\<bar>" using assms(1) pow2_pos[of k] by linarith
  have "of_int k \<le> log 2 \<bar>x\<bar>"
    using assms(1) p by (simp add: pow2_powr le_log_iff)
  moreover have "log 2 \<bar>x\<bar> < of_int k + 1"
    using assms(2) p by (simp add: pow2_powr log_less_iff)
  ultimately show ?thesis by (simp add: floor_eq_iff)
qed

lemma fl_eval:
  assumes "pow2 k \<le> \<bar>x\<bar>" and "\<bar>x\<bar> < pow2 (k + 1)"
  shows "fl x = of_int (round_even (x / pow2 (k - 52))) * pow2 (k - 52)"
proof -
  have "x \<noteq> 0" using assms(1) pow2_pos[of k] by auto
  then show ?thesis by (simp add: fl_def floor_log2[OF assms])
qed

lemma d_ft: "fl 0.3048 = 5490788665690109 / 2 ^ 54"
  by (subst fl_eval[of "-2"]) (simp_all add: pow2_def round_even_def Let_def)

lemma d_cm: "fl 0.01 = 5764607523034235 / 2 ^ 59"
  by (subst fl_eval[of "-7"]) (simp_all add: pow2_def round_even_def Let_def)

lemma d_3: "fl 3 = 3"
  by (subst fl_eval[of 1]) (simp_all add: pow2_def round_even_def Let_def)

lemma d_prod: "fl (3 * (5490788665690109 / 2 ^ 54)) = 8236182998535164 / 2 ^ 53"
  by (subst fl_eval[of "-1"]) (simp_all add: pow2_def round_even_def Let_def)

lemma d_quot: "fl (8236182998535164 / 2 ^ 53 / (5764607523034235 / 2 ^ 59)) = 6434517967605597 / 2 ^ 46"
  by (subst fl_eval[of 6]) (simp_all add: pow2_def round_even_def Let_def)

lemma d_id: "fl (6434517967605597 / 2 ^ 46) = 6434517967605597 / 2 ^ 46"
  by (subst fl_eval[of 6]) (simp_all add: pow2_def round_even_def Let_def)

lemma d_9144: "fl 91.44 = 6434517967605596 / 2 ^ 46"
  by (subst fl_eval[of 6]) (simp_all add: pow2_def round_even_def Let_def)

lemma double_example:
  "double_from_base (fl 0.01) 0 (double_to_base (fl 0.3048) 0 3) = 6434517967605597 / 2 ^ 46"
proof -
  define f where "f = fl 0.3048"
  define c where "c = fl 0.01"
  have f: "f = 5490788665690109 / 2 ^ 54" unfolding f_def by (rule d_ft)
  have c: "c = 5764607523034235 / 2 ^ 59" unfolding c_def by (rule d_cm)
  have 1: "fl (3 + 0) = 3" by (simp add: d_3)
  have 2: "fl (0 * 0) = 0" by (simp add: fl_def)
  have 3: "fl (3 - 0) = 3" by (simp add: d_3)
  have 4: "fl (3 * f) = 8236182998535164 / 2 ^ 53" unfolding f by (rule d_prod)
  have t: "double_to_base f 0 3 = 8236182998535164 / 2 ^ 53"
    unfolding double_to_base_def by (simp only: if_True simp_thms 1 2 3 4)
  have q: "fl (8236182998535164 / 2 ^ 53 / c) = 6434517967605597 / 2 ^ 46"
    unfolding c by (rule d_quot)
  have r: "fl (6434517967605597 / 2 ^ 46 + 0) = 6434517967605597 / 2 ^ 46"
    by (simp only: add_0_right d_id)
  have "double_from_base c 0 (double_to_base f 0 3) = 6434517967605597 / 2 ^ 46"
    unfolding double_from_base_def t q r by (rule refl)
  then show ?thesis unfolding f_def c_def .
qed

lemma groups_true: "expr_groups ''True*1 m to cm'' = Some (''True*1'', ''m'', ''cm'')"
  by (simp add: rx_defs text_defs)

lemma convert_true: "convert_units 1 ''m'' ''cm'' = Inr (1, ''m'', ''length'', 100, ''cm'')"
  by (simp add: conv)

subsection \<open>The pattern does not see the case of letters\<close>

lemma code_lower_char: "is_upper x \<Longrightarrow> code (lower_char x) = code x + 32"
proof (cases x)
  case (Char b0 b1 b2 b3 b4 b5 b6 b7)
  assume u: "is_upper x"
  have "b6 \<and> \<not> b5 \<and> \<not> b7"
    using u unfolding Char is_upper_def code_def
    by (cases b5; cases b6; cases b7; cases b4; cases b3; cases b2; cases b1; cases b0; simp)
  then show ?thesis using u unfolding Char
    by (simp add: code_def lower_char_def)
qed

lemma lower_char_idem: "lower_char (lower_char x) = lower_char x"
proof (cases "is_upper x")
  case True
  then have "code (lower_char x) = code x + 32" by (rule code_lower_char)
  with True have "\<not> is_upper (lower_char x)" by (simp add: is_upper_def)
  then show ?thesis by (simp add: lower_char_def[of "lower_char x"])
next
  case False
  then show ?thesis by (simp add: lower_char_def)
qed

lemma blind_space: "case_blind is_space"
  unfolding case_blind_def
proof
  fix x show "is_space (lower_char x) = is_space x"
  proof (cases "is_upper x")
    case True
    with code_lower_char[OF True] show ?thesis by (simp add: is_space_def is_upper_def)
  next
    case False then show ?thesis by (simp add: lower_char_def)
  qed
qed

lemma blind_digit: "case_blind is_digit"
  unfolding case_blind_def
proof
  fix x show "is_digit (lower_char x) = is_digit x"
  proof (cases "is_upper x")
    case True
    with code_lower_char[OF True] show ?thesis by (simp add: is_digit_def is_upper_def)
  next
    case False then show ?thesis by (simp add: lower_char_def)
  qed
qed

lemma code_inj: "code x = code y \<Longrightarrow> x = y"
  by (simp add: code_def)

lemma lower_char_not: "is_upper x \<Longrightarrow> code c < 65 \<or> (90 < code c \<and> code c < 97) \<or> 122 < code c
    \<Longrightarrow> lower_char x \<noteq> c \<and> x \<noteq> c"
  using code_lower_char[of x] by (auto simp: is_upper_def)

lemma blind_value: "case_blind value_char"
  unfolding case_blind_def
proof
  fix x show "value_char (lower_char x) = value_char x"
  proof (cases "is_upper x")
    case True
    have w: "is_word (lower_char x)" "is_word x"
      using True code_lower_char[OF True] by (auto simp: is_word_def is_lower_def is_upper_def)
    then show ?thesis by (simp add: value_char_def)
  next
    case False then show ?thesis by (simp add: lower_char_def)
  qed
qed

lemma blind_from_first: "case_blind from_first"
  using blind_space blind_digit by (simp add: case_blind_def from_first_def)

lemma blind_not_09: "case_blind not_09"
  using blind_digit by (simp add: case_blind_def not_09_def)

lemma blind_dot: "case_blind dot"
  unfolding case_blind_def
proof
  fix x show "dot (lower_char x) = dot x"
  proof (cases "is_upper x")
    case True
    have "code (CHR 0x0A) < 65" by (simp add: code_def)
    from lower_char_not[OF True, of "CHR 0x0A"] this show ?thesis by (simp add: dot_def)
  next
    case False then show ?thesis by (simp add: lower_char_def)
  qed
qed

lemma case_blindD: "case_blind P \<Longrightarrow> lower_char x = lower_char y \<Longrightarrow> P x = P y"
  by (metis case_blind_def)

lemma lower_length: "lower s = lower s' \<Longrightarrow> length s = length s'"
  unfolding lower_def by (rule map_eq_imp_length_eq)

lemma lower_Cons:
  "lower (x # xs) = lower s' \<Longrightarrow> \<exists>y ys. s' = y # ys \<and> lower_char x = lower_char y \<and> lower xs = lower ys"
  by (cases s') (simp_all add: lower_def)

lemma lower_Nil: "lower [] = lower s' \<Longrightarrow> s' = []"
  by (simp add: lower_def)

lemma lower_take: "lower s = lower s' \<Longrightarrow> lower (take n s) = lower (take n s')"
  by (simp add: lower_def take_map[symmetric])

lemma lower_drop: "lower s = lower s' \<Longrightarrow> lower (drop n s) = lower (drop n s')"
  by (simp add: lower_def drop_map[symmetric])

lemma star_greedy_blind:
  assumes P: "case_blind P"
    and k: "\<And>t t'. lower t = lower t' \<Longrightarrow> rel_option R (k t) (k' t')"
  shows "lower s = lower s' \<Longrightarrow> rel_option R (star_greedy P k s) (star_greedy P k' s')"
proof (induction s arbitrary: s')
  case Nil
  then have "s' = []" by (rule lower_Nil)
  then show ?case using k[of "[]" "[]"] by simp
next
  case (Cons x xs)
  from lower_Cons[OF Cons.prems] obtain y ys
    where s': "s' = y # ys" and xy: "lower_char x = lower_char y" and l: "lower xs = lower ys"
    by blast
  have p: "P x = P y" using P xy by (rule case_blindD)
  have r: "rel_option R (star_greedy P k xs) (star_greedy P k' ys)" using l by (rule Cons.IH)
  have q: "rel_option R (k (x # xs)) (k' (y # ys))" using Cons.prems s' k by simp
  show ?case unfolding s' using p r q
    by (cases "star_greedy P k xs"; cases "star_greedy P k' ys") auto
qed

lemma star_lazy_blind:
  assumes P: "case_blind P"
    and k: "\<And>t t'. lower t = lower t' \<Longrightarrow> rel_option R (k t) (k' t')"
  shows "lower s = lower s' \<Longrightarrow> rel_option R (star_lazy P k s) (star_lazy P k' s')"
proof (induction s arbitrary: s')
  case Nil
  then have "s' = []" by (rule lower_Nil)
  then show ?case using k[of "[]" "[]"] by simp
next
  case (Cons x xs)
  from lower_Cons[OF Cons.prems] obtain y ys
    where s': "s' = y # ys" and xy: "lower_char x = lower_char y" and l: "lower xs = lower ys"
    by blast
  have p: "P x = P y" using P xy by (rule case_blindD)
  have r: "rel_option R (star_lazy P k xs) (star_lazy P k' ys)" using l by (rule Cons.IH)
  have q: "rel_option R (k (x # xs)) (k' (y # ys))" using Cons.prems s' k by simp
  show ?case unfolding s' using p r q
    by (cases "k (x # xs)"; cases "k' (y # ys)") auto
qed

lemma star_blind:
  assumes "case_blind P"
    and "\<And>t t'. lower t = lower t' \<Longrightarrow> rel_option R (k t) (k' t')"
    and "lower s = lower s'"
  shows "rel_option R (star g P k s) (star g P k' s')"
  unfolding star_def using star_greedy_blind[OF assms] star_lazy_blind[OF assms] by simp

lemma one_blind:
  assumes P: "case_blind P"
    and k: "\<And>t t'. lower t = lower t' \<Longrightarrow> rel_option R (k t) (k' t')"
    and s: "lower s = lower s'"
  shows "rel_option R (one P k s) (one P k' s')"
proof (cases s)
  case Nil
  with s have "s' = []" by (simp add: lower_Nil)
  with Nil show ?thesis by (simp add: one_def)
next
  case (Cons x xs)
  from lower_Cons[OF s[unfolded Cons]] obtain y ys
    where s': "s' = y # ys" and xy: "lower_char x = lower_char y" and l: "lower xs = lower ys"
    by blast
  have p: "P x = P y" using P xy by (rule case_blindD)
  show ?thesis unfolding Cons s' one_def using p k[OF l] by simp
qed

lemma lower_newline: "lower s = lower s' \<Longrightarrow> (s = [CHR 0x0A]) = (s' = [CHR 0x0A])"
proof -
  have n: "lower_char c = CHR 0x0A \<longleftrightarrow> c = CHR 0x0A" for c
  proof (cases "is_upper c")
    case True
    have "code (CHR 0x0A) < 65" by (simp add: code_def)
    with lower_char_not[OF True, of "CHR 0x0A"] show ?thesis by simp
  next
    case False
    then show ?thesis by (simp add: lower_char_def)
  qed
  have m: "\<not> is_upper (CHR 0x0A)" by (simp add: is_upper_def code_def)
  have e: "lower t = [CHR 0x0A] \<longleftrightarrow> t = [CHR 0x0A]" for t
    using n by (cases t) (auto simp: lower_def)
  assume "lower s = lower s'"
  then show ?thesis using e[of s] e[of s'] by auto
qed

lemma lower_empty: "lower s = lower s' \<Longrightarrow> (s = []) = (s' = [])"
  by (auto simp: lower_def)

lemma ci_prefix_blind: "lower s = lower s' \<Longrightarrow> ci_prefix l s = ci_prefix l s'"
  unfolding ci_prefix_def using lower_length[of s s'] lower_take[of s s' "length l"] by simp

lemma krelD: "krel k k' \<Longrightarrow> caps_rel c c' \<Longrightarrow> lower s = lower s' \<Longrightarrow> rel_option caps_rel (k c s) (k' c' s')"
  by (simp add: krel_def)

lemma rmatch_blind:
  assumes len: "length inp = length inp'"
  shows "rx_blind r \<Longrightarrow> caps_rel c c' \<Longrightarrow> lower s = lower s' \<Longrightarrow> krel k k'
    \<Longrightarrow> rel_option caps_rel (rmatch inp r k c s) (rmatch inp' r k' c' s')"
proof (induction r arbitrary: k k' c c' s s')
  case (Chr P)
  have "rel_option caps_rel (one P (k c) s) (one P (k' c') s')"
  proof (rule one_blind)
    show "case_blind P" using Chr.prems(1) by simp
  next
    fix t t' :: string
    assume "lower t = lower t'"
    with Chr.prems(4) Chr.prems(2) show "rel_option caps_rel (k c t) (k' c' t')" by (rule krelD)
  next
    show "lower s = lower s'" by fact
  qed
  then show ?case by simp
next
  case (Lit l)
  then show ?case
    using ci_prefix_blind[of s s' l] krelD[OF Lit(4) Lit(2) lower_drop[OF Lit(3)], of "length l"]
    by simp
next
  case (Seq a b)
  have "krel (rmatch inp b k) (rmatch inp' b k')"
    unfolding krel_def using Seq.IH(2) Seq.prems by simp
  then show ?case using Seq.IH(1) Seq.prems by simp
next
  case (Alt a b)
  have 1: "rel_option caps_rel (rmatch inp a k c s) (rmatch inp' a k' c' s')"
    using Alt.IH(1) Alt.prems by simp
  have 2: "rel_option caps_rel (rmatch inp b k c s) (rmatch inp' b k' c' s')"
    using Alt.IH(2) Alt.prems by simp
  show ?case using 1 2
    by (cases "rmatch inp a k c s"; cases "rmatch inp' a k' c' s'") auto
next
  case (Opt a)
  have 1: "rel_option caps_rel (rmatch inp a k c s) (rmatch inp' a k' c' s')"
    using Opt.IH Opt.prems by simp
  have 2: "rel_option caps_rel (k c s) (k' c' s')"
    using Opt.prems by (simp add: krelD)
  show ?case using 1 2
    by (cases "rmatch inp a k c s"; cases "rmatch inp' a k' c' s'") auto
next
  case (Star g P)
  have "rel_option caps_rel (star g P (k c) s) (star g P (k' c') s')"
  proof (rule star_blind)
    show "case_blind P" using Star.prems(1) by simp
  next
    fix t t' :: string
    assume "lower t = lower t'"
    with Star.prems(4) Star.prems(2) show "rel_option caps_rel (k c t) (k' c' t')" by (rule krelD)
  next
    show "lower s = lower s'" by fact
  qed
  then show ?case by simp
next
  case (Plus g P)
  have P: "case_blind P" using Plus.prems(1) by simp
  have "rel_option caps_rel (one P (star g P (k c)) s) (one P (star g P (k' c')) s')"
  proof (rule one_blind)
    show "case_blind P" by (rule P)
  next
    fix u u' :: string
    assume u: "lower u = lower u'"
    show "rel_option caps_rel (star g P (k c) u) (star g P (k' c') u')"
    proof (rule star_blind)
      show "case_blind P" by (rule P)
    next
      fix t t' :: string
      assume "lower t = lower t'"
      with Plus.prems(4) Plus.prems(2) show "rel_option caps_rel (k c t) (k' c' t')" by (rule krelD)
    next
      show "lower u = lower u'" by (rule u)
    qed
  next
    show "lower s = lower s'" by fact
  qed
  then show ?case by simp
next
  case (Grp n a)
  have "krel (\<lambda>c1 s1. k (c1(n \<mapsto> take (length s - length s1) s)) s1)
             (\<lambda>c1 s1. k' (c1(n \<mapsto> take (length s' - length s1) s')) s1)"
    unfolding krel_def
  proof (intro allI impI)
    fix c1 c1' s1 s1'
    assume c: "caps_rel c1 c1'" and l: "lower s1 = lower s1'"
    have e: "length s' - length s1' = length s - length s1"
      using lower_length[OF l] lower_length[OF Grp.prems(3)] by simp
    have "caps_rel (c1(n \<mapsto> take (length s - length s1) s)) (c1'(n \<mapsto> take (length s' - length s1') s'))"
      using c lower_take[OF Grp.prems(3), of "length s - length s1"] unfolding caps_rel_def e by simp
    with Grp.prems(4) show "rel_option caps_rel (k (c1(n \<mapsto> take (length s - length s1) s)) s1)
        (k' (c1'(n \<mapsto> take (length s' - length s1') s')) s1')"
      using l by (rule krelD)
  qed
  then show ?case using Grp.IH Grp.prems by simp
next
  case Bos
  then show ?case using len lower_length[of s s'] by (simp add: krelD)
next
  case Eos
  then show ?case using lower_newline[of s s'] lower_empty[of s s'] by (simp add: krelD)
qed

lemma re_match_blind:
  assumes "rx_blind r" "lower s = lower s'"
  shows "rel_option caps_rel (re_match r s) (re_match r s')"
  unfolding re_match_def
  by (rule rmatch_blind[OF lower_length[OF assms(2)] assms(1) _ assms(2)])
     (simp_all add: caps_rel_def krel_def)

lemma rx_blind_EXPR_PAT: "rx_blind EXPR_PAT"
  by (simp add: EXPR_PAT_def seqs_def blind_space blind_value blind_from_first blind_not_09 blind_dot)

lemma dropWhile_blind:
  "lower s = lower s' \<Longrightarrow> lower (dropWhile is_space s) = lower (dropWhile is_space s')"
proof (induction s arbitrary: s')
  case Nil
  then have "s' = []" by (rule lower_Nil)
  then show ?case by simp
next
  case (Cons x xs)
  from lower_Cons[OF Cons.prems] obtain y ys
    where s': "s' = y # ys" and xy: "lower_char x = lower_char y" and l: "lower xs = lower ys"
    by blast
  have p: "is_space x = is_space y" using blind_space xy by (rule case_blindD)
  show ?case unfolding s' using p Cons.IH[OF l] Cons.prems s' by simp
qed

lemma lower_rev: "lower s = lower s' \<Longrightarrow> lower (rev s) = lower (rev s')"
  by (simp add: lower_def rev_map[symmetric])

lemma strip_blind: "lower s = lower s' \<Longrightarrow> lower (strip s) = lower (strip s')"
  unfolding strip_def by (intro lower_rev dropWhile_blind)

lemma caps_relD:
  assumes "caps_rel m m'" "m n = Some g"
  shows "\<exists>g'. m' n = Some g' \<and> lower g = lower g'"
proof -
  have "rel_option (\<lambda>a b. lower a = lower b) (m n) (m' n)"
    using assms(1) by (simp add: caps_rel_def)
  then show ?thesis unfolding assms(2) by (cases "m' n") simp_all
qed

lemma expr_groups_blind:
  assumes l: "lower s = lower s'" and g: "expr_groups s = Some (v, f, t)"
  shows "\<exists>v' f' t'. expr_groups s' = Some (v', f', t')
           \<and> lower v' = lower v \<and> lower f' = lower f \<and> lower t' = lower t"
proof -
  from g obtain m gv gf gt where m: "re_match EXPR_PAT s = Some m"
    and mv: "m ''value'' = Some gv" and mf: "m ''from'' = Some gf" and mt: "m ''to'' = Some gt"
    and v: "v = strip gv" and f: "f = strip gf" and t: "t = strip gt"
    by (auto simp: expr_groups_def split: option.splits)
  from re_match_blind[OF rx_blind_EXPR_PAT l] m obtain m'
    where m': "re_match EXPR_PAT s' = Some m'" and r: "caps_rel m m'"
    by (cases "re_match EXPR_PAT s'") auto
  from caps_relD[OF r mv] obtain gv' where mv': "m' ''value'' = Some gv'" and lv: "lower gv = lower gv'"
    by blast
  from caps_relD[OF r mf] obtain gf' where mf': "m' ''from'' = Some gf'" and lf: "lower gf = lower gf'"
    by blast
  from caps_relD[OF r mt] obtain gt' where mt': "m' ''to'' = Some gt'" and lt: "lower gt = lower gt'"
    by blast
  have "expr_groups s' = Some (strip gv', strip gf', strip gt')"
    by (simp add: expr_groups_def m' mv' mf' mt')
  moreover have "lower (strip gv') = lower v" unfolding v using strip_blind[OF lv] by simp
  moreover have "lower (strip gf') = lower f" unfolding f using strip_blind[OF lf] by simp
  moreover have "lower (strip gt') = lower t" unfolding t using strip_blind[OF lt] by simp
  ultimately show ?thesis by blast
qed

subsection \<open>The result depends on the units found\<close>

lemma get_lower: "lower a = lower b \<Longrightarrow> get r c a = get r c b"
  by (simp add: get_def split: option.splits)

lemma convert_units_same_units:
  assumes F: "\<And>c. get ureg c f = get ureg c f'" and T: "\<And>c. get ureg c t = get ureg c t'"
  shows "(convert_units x f t = Inr r) = (convert_units x f' t' = Inr r)"
proof -
  have d: "detect_category ureg f t = detect_category ureg f' t'"
    by (simp only: detect_ureg F T)
  show ?thesis
    unfolding convert_units_def d F T
    by (cases "detect_category ureg f' t'") simp_all
qed

lemma parse_and_convert_same_units:
  assumes g: "expr_groups s = Some (v, f, t)" and g': "expr_groups s' = Some (v, f', t')"
    and F: "\<And>c. get ureg c f = get ureg c f'" and T: "\<And>c. get ureg c t = get ureg c t'"
  shows "(parse_and_convert h s deg = Inr r) = (parse_and_convert h s' deg = Inr r)"
proof -
  have c: "(convert_units x f t = Inr r) = (convert_units x f' t' = Inr r)" for x
    by (rule convert_units_same_units) (rule F, rule T)
  show ?thesis
  proof (cases "eval_value h v deg")
    case (Inl e)
    show ?thesis
      unfolding parse_and_convert_eval_error[OF g Inl] parse_and_convert_eval_error[OF g' Inl]
      by simp
  next
    case (Inr x)
    show ?thesis
      unfolding parse_and_convert_groups[OF g Inr] parse_and_convert_groups[OF g' Inr]
      by (rule c)
  qed
qed

subsection \<open>The claims\<close>

text \<open>
  Claim C1. Every unit of the seed table is found under its canonical name, with the
  factor of the table; in particular \<open>get('energy', 'cal')\<close> is the calorie (4.184 J) and
  \<open>get('data', 'B')\<close> is the byte, the base unit. The code does not do this: keys are
  case-folded, so the alias \<open>Cal\<close> of the kilocalorie, registered later, takes the key
  \<open>cal\<close>, and the alias \<open>b\<close> of the bit takes the key of \<open>B\<close>. The theorem evaluates
  both lookups: the units found are \<open>kcal\<close> (1 maps to 4184) and \<open>bit\<close> (1 maps to 1/8).
\<close>

theorem C1_canonical_lookup_overwritten:
  "map_option (\<lambda>u. (name u, to_base u 1)) (get ureg ''energy'' ''cal'') = Some (''kcal'', Inr 4184)
   \<and> map_option (\<lambda>u. (name u, to_base u 1)) (get ureg ''data'' ''B'') = Some (''bit'', Inr (1 / 8))"
  by (simp add: lookup linear_make_unit)

text \<open>
  Claim C7. A unit registered in linear mode, with factor \<open>f\<close> and offset \<open>b\<close> and no
  custom transform, is found under its name and under each alias, and its transforms are
  \<open>toBase(x) = (x - b) * f\<close> and \<open>fromBase(x) = x / f + b\<close>; the quotient is one when
  \<open>f\<close> is not zero (Python raises on a zero factor).
\<close>

theorem C7_linear_mode:
  assumes "k \<in> set (nm # als)"
  shows "\<exists>u. get (add c nm (Some f) b None None als r) c k = Some u \<and> name u = nm
           \<and> to_base u x = Inr ((x - b) * f)
           \<and> (f \<noteq> 0 \<longrightarrow> from_base u x = Inr (x / f + b))"
proof -
  from assms have "lower k \<in> set (map lower (nm # als))" by auto
  then have "get (add c nm (Some f) b None None als r) c k
      = Some (make_unit nm (Some f) b None None als)"
    by (simp add: get_add)
  then show ?thesis
    by (simp add: name_make_unit linear_make_unit)
qed

theorem C7_linear_mode_witness:
  "\<exists>u. get (add ''demo'' ''u'' (Some 2) 1 None None [''unit''] []) ''demo'' ''unit'' = Some u
       \<and> name u = ''u'' \<and> to_base u 4 = Inr 6 \<and> from_base u 6 = Inr 4"
  using C7_linear_mode[of "''unit''" "''u''" "[''unit'']" "''demo''" 2 1 "[]" 4]
    C7_linear_mode[of "''unit''" "''u''" "[''unit'']" "''demo''" 2 1 "[]" 6]
  by auto

text \<open>
  Claim C5. \<open>detect_category(a, b)\<close> returns the first category, in the order of
  registration, in whose dictionary both case-folded texts are keys, and nothing when no
  category holds both. When it returns nothing, \<open>parse_and_convert\<close> raises the error
  "Cannot detect a common category" (the spec's UnitError) and computes no number; so does
  \<open>1 m to kg\<close>, on a host that reads \<open>1\<close> as the literal 1.
\<close>

theorem C5_detect_category:
  "(detect_category r a b = Some c \<longrightarrow>
      (\<exists>i<length r. fst (r ! i) = c \<and> snd (r ! i) (lower a) \<noteq> None \<and> snd (r ! i) (lower b) \<noteq> None
         \<and> (\<forall>j<i. snd (r ! j) (lower a) = None \<or> snd (r ! j) (lower b) = None)))
   \<and> (detect_category r a b = None \<longleftrightarrow>
        (\<forall>i<length r. snd (r ! i) (lower a) = None \<or> snd (r ! i) (lower b) = None))
   \<and> (expr_groups s = Some (v, f, t) \<and> eval_value h v deg = Inr x
        \<and> detect_category ureg f t = None
      \<longrightarrow> parse_and_convert h s deg = Inl (category_error f t))
   \<and> (literal_host h ''1'' 1
      \<longrightarrow> parse_and_convert h ''1 m to kg'' deg = Inl (category_error ''m'' ''kg''))"
proof (intro conjI impI)
  assume "detect_category r a b = Some c"
  then show "\<exists>i<length r. fst (r ! i) = c \<and> snd (r ! i) (lower a) \<noteq> None
      \<and> snd (r ! i) (lower b) \<noteq> None
      \<and> (\<forall>j<i. snd (r ! j) (lower a) = None \<or> snd (r ! j) (lower b) = None)"
    unfolding detect_category_def by (rule detect_loop_first)
next
  show "detect_category r a b = None \<longleftrightarrow>
      (\<forall>i<length r. snd (r ! i) (lower a) = None \<or> snd (r ! i) (lower b) = None)"
    unfolding detect_category_def by (rule detect_loop_none)
next
  assume "expr_groups s = Some (v, f, t) \<and> eval_value h v deg = Inr x
      \<and> detect_category ureg f t = None"
  then show "parse_and_convert h s deg = Inl (category_error f t)"
    by (simp add: parse_and_convert_def convert_units_def)
next
  assume "literal_host h ''1'' 1"
  then have "eval_value h ''1'' deg = Inr 1"
    using eval_value_literal[of h "''1''" 1 deg] by simp
  then show "parse_and_convert h ''1 m to kg'' deg = Inl (category_error ''m'' ''kg'')"
    by (simp add: parse_and_convert_groups[OF groups_examples(7)] convert_examples)
qed

theorem C5_detect_category_witness:
  "detect_category two_categories ''X'' ''Y'' = Some ''b''
   \<and> (\<exists>i<length two_categories. fst (two_categories ! i) = ''b'')
   \<and> detect_category two_categories ''x'' ''z'' = None
   \<and> parse_and_convert sample_host ''1 m to kg'' False = Inl (category_error ''m'' ''kg'')"
proof -
  have d: "detect_category two_categories ''X'' ''Y'' = Some ''b''"
    by (simp add: detect_category_def two_categories_def text_defs)
  have n: "\<forall>i<length two_categories.
      snd (two_categories ! i) (lower ''x'') = None \<or> snd (two_categories ! i) (lower ''z'') = None"
    by (simp add: two_categories_def text_defs less_Suc_eq)
  note t = C5_detect_category[of two_categories "''X''" "''Y''" "''b''" "''1 m to kg''" "''1''"
      "''m''" "''kg''" sample_host False 1]
  note t' = C5_detect_category[of two_categories "''x''" "''z''" "''b''" "''1 m to kg''" "''1''"
      "''m''" "''kg''" sample_host False 1]
  from t d have "\<exists>i<length two_categories. fst (two_categories ! i) = ''b''" by blast
  moreover from t' n have "detect_category two_categories ''x'' ''z'' = None" by blast
  moreover from t sample_literal(3)
  have "parse_and_convert sample_host ''1 m to kg'' False = Inl (category_error ''m'' ''kg'')"
    by blast
  ultimately show ?thesis using d by blast
qed

text \<open>
  Claim C6, as amended. A successful \<open>parse_and_convert\<close> returns the value, the names
  of the two units the registry found (their canonical names, not the texts typed), the
  category and \<open>toUnit.fromBase(fromUnit.toBase(value))\<close>. On a host that reads \<open>3\<close>
  as the literal 3, \<open>3 ft to cm\<close> gives value 3, ft, length, cm and a result within
  \<open>1e-9\<close> of 91.44, and so does \<open>3 feet to centimeters\<close>; the result the two closures
  compute in doubles is within that distance as well.
\<close>

theorem C6_result_composes_transforms:
  "(parse_and_convert h s deg = Inr (v, fn, c, y, tn) \<longrightarrow>
      (\<exists>vt f t uf ut xb. expr_groups s = Some (vt, f, t) \<and> eval_value h vt deg = Inr v
         \<and> get ureg c f = Some uf \<and> get ureg c t = Some ut
         \<and> to_base uf v = Inr xb \<and> from_base ut xb = Inr y
         \<and> fn = name uf \<and> tn = name ut))
   \<and> (literal_host h ''3'' 3 \<longrightarrow>
        (\<exists>y. parse_and_convert h ''3 ft to cm'' deg = Inr (3, ''ft'', ''length'', y, ''cm'')
            \<and> \<bar>y - 91.44\<bar> \<le> 1 / 10 ^ 9)
        \<and> (\<exists>y. parse_and_convert h ''3 feet to centimeters'' deg
                 = Inr (3, ''ft'', ''length'', y, ''cm'')
            \<and> \<bar>y - 91.44\<bar> \<le> 1 / 10 ^ 9))
   \<and> \<bar>double_from_base (fl 0.01) 0 (double_to_base (fl 0.3048) 0 3) - 91.44\<bar> \<le> 1 / 10 ^ 9"
proof (intro conjI impI)
  assume a: "parse_and_convert h s deg = Inr (v, fn, c, y, tn)"
  then obtain vt f t where g: "expr_groups s = Some (vt, f, t)"
    by (auto simp: parse_and_convert_def split: option.splits)
  with a obtain x where x: "eval_value h vt deg = Inr x"
    and cu: "convert_units x f t = Inr (v, fn, c, y, tn)"
    by (auto simp: parse_and_convert_def split: sum.splits)
  from cu show "\<exists>vt f t uf ut xb. expr_groups s = Some (vt, f, t) \<and> eval_value h vt deg = Inr v
         \<and> get ureg c f = Some uf \<and> get ureg c t = Some ut
         \<and> to_base uf v = Inr xb \<and> from_base ut xb = Inr y
         \<and> fn = name uf \<and> tn = name ut"
    using g x
    by (auto simp: convert_units_def split: option.splits if_splits sum.splits)
next
  assume "literal_host h ''3'' 3"
  then have e: "eval_value h ''3'' deg = Inr 3"
    using eval_value_literal[of h "''3''" 3 deg] by simp
  have "parse_and_convert h ''3 ft to cm'' deg = Inr (3, ''ft'', ''length'', 91.44, ''cm'')"
    by (simp add: parse_and_convert_groups[OF groups_examples(1) e] convert_examples)
  then show "\<exists>y. parse_and_convert h ''3 ft to cm'' deg = Inr (3, ''ft'', ''length'', y, ''cm'')
            \<and> \<bar>y - 91.44\<bar> \<le> 1 / 10 ^ 9" by (intro exI[of _ "91.44"]) simp
  have "parse_and_convert h ''3 feet to centimeters'' deg
      = Inr (3, ''ft'', ''length'', 91.44, ''cm'')"
    by (simp add: parse_and_convert_groups[OF groups_examples(3) e] convert_examples)
  then show "\<exists>y. parse_and_convert h ''3 feet to centimeters'' deg
                 = Inr (3, ''ft'', ''length'', y, ''cm'')
            \<and> \<bar>y - 91.44\<bar> \<le> 1 / 10 ^ 9" by (intro exI[of _ "91.44"]) simp
next
  show "\<bar>double_from_base (fl 0.01) 0 (double_to_base (fl 0.3048) 0 3) - 91.44\<bar> \<le> 1 / 10 ^ 9"
    unfolding double_example by simp
qed

theorem C6_result_composes_transforms_witness:
  "(\<exists>y. parse_and_convert sample_host ''3 ft to cm'' False = Inr (3, ''ft'', ''length'', y, ''cm'')
       \<and> \<bar>y - 91.44\<bar> \<le> 1 / 10 ^ 9
       \<and> (\<exists>uf ut xb. get ureg ''length'' ''ft'' = Some uf \<and> get ureg ''length'' ''cm'' = Some ut
             \<and> to_base uf 3 = Inr xb \<and> from_base ut xb = Inr y
             \<and> name uf = ''ft'' \<and> name ut = ''cm''))"
proof -
  have t3: "\<exists>y. parse_and_convert sample_host ''3 ft to cm'' False
        = Inr (3, ''ft'', ''length'', y, ''cm'') \<and> \<bar>y - 91.44\<bar> \<le> 1 / 10 ^ 9"
    using C6_result_composes_transforms[of sample_host "''3 ft to cm''" False 3 "''ft''"
        "''length''" 0 "''cm''"] sample_literal(1) by blast
  then obtain y where p: "parse_and_convert sample_host ''3 ft to cm'' False
        = Inr (3, ''ft'', ''length'', y, ''cm'')" and y: "\<bar>y - 91.44\<bar> \<le> 1 / 10 ^ 9" by blast
  from C6_result_composes_transforms[of sample_host "''3 ft to cm''" False 3 "''ft''"
        "''length''" y "''cm''"] p
  obtain vt f t' uf ut xb where
    g: "expr_groups ''3 ft to cm'' = Some (vt, f, t')" and
    u: "get ureg ''length'' f = Some uf" "get ureg ''length'' t' = Some ut"
      "to_base uf 3 = Inr xb" "from_base ut xb = Inr y" and
    n: "''ft'' = name uf" "''cm'' = name ut" by blast
  from g have "f = ''ft''" "t' = ''cm''" by (simp_all add: groups_examples)
  with u n[symmetric] have "get ureg ''length'' ''ft'' = Some uf \<and> get ureg ''length'' ''cm'' = Some ut
      \<and> to_base uf 3 = Inr xb \<and> from_base ut xb = Inr y
      \<and> name uf = ''ft'' \<and> name ut = ''cm''" by blast
  then show ?thesis using p y by blast
qed

text \<open>
  Claim C6, as stated, gives the result 91.44. In the doubles of the code the two closures
  give \<open>6434517967605597 / 2^46\<close> (printed 91.44000000000001), one unit in the last
  place above the double nearest to 91.44.
\<close>

theorem C6_double_result_is_not_91_44:
  "double_from_base (fl 0.01) 0 (double_to_base (fl 0.3048) 0 3) = 6434517967605597 / 2 ^ 46
   \<and> fl 91.44 = 6434517967605596 / 2 ^ 46
   \<and> double_from_base (fl 0.01) 0 (double_to_base (fl 0.3048) 0 3) \<noteq> fl 91.44"
proof (intro conjI)
  show "double_from_base (fl 0.01) 0 (double_to_base (fl 0.3048) 0 3) = 6434517967605597 / 2 ^ 46"
    by (rule double_example)
  show "fl 91.44 = 6434517967605596 / 2 ^ 46" by (rule d_9144)
  show "double_from_base (fl 0.01) 0 (double_to_base (fl 0.3048) 0 3) \<noteq> fl 91.44"
    unfolding double_example d_9144 by simp
qed

text \<open>
  Claim C8. On a host that reads \<open>32\<close> as the literal 32, \<open>32 F to C\<close> gives the result
  0 in the category temperature; the unit found for \<open>F\<close> has
  \<open>toBase(x) = (x - 32) * 5/9 + 273.15\<close> and the unit found for \<open>C\<close> has
  \<open>fromBase(x) = x - 273.15\<close>.
\<close>

theorem C8_fahrenheit_to_celsius:
  "(literal_host h ''32'' 32 \<longrightarrow>
      parse_and_convert h ''32 F to C'' deg = Inr (32, ''F'', ''temperature'', 0, ''C''))
   \<and> map_option (\<lambda>u. to_base u x) (get ureg ''temperature'' ''F'')
       = Some (Inr ((x - 32) * 5 / 9 + 273.15))
   \<and> map_option (\<lambda>u. from_base u x) (get ureg ''temperature'' ''C'') = Some (Inr (x - 273.15))"
proof (intro conjI impI)
  assume "literal_host h ''32'' 32"
  then have e: "eval_value h ''32'' deg = Inr 32"
    using eval_value_literal[of h "''32''" 32 deg] by simp
  show "parse_and_convert h ''32 F to C'' deg = Inr (32, ''F'', ''temperature'', 0, ''C'')"
    by (simp add: parse_and_convert_groups[OF groups_examples(6) e] convert_examples)
next
  show "map_option (\<lambda>u. to_base u x) (get ureg ''temperature'' ''F'')
       = Some (Inr ((x - 32) * 5 / 9 + 273.15))"
    by (simp add: lookup custom_make_unit F_to_K_def)
  show "map_option (\<lambda>u. from_base u x) (get ureg ''temperature'' ''C'') = Some (Inr (x - 273.15))"
    by (simp add: lookup custom_make_unit K_to_C_def)
qed

theorem C8_fahrenheit_to_celsius_witness:
  "parse_and_convert sample_host ''32 F to C'' False = Inr (32, ''F'', ''temperature'', 0, ''C'')"
  using C8_fahrenheit_to_celsius[of sample_host False 0] sample_literal(2) by blast

text \<open>
  Claim C2, as amended. An expression whose tree holds a node outside the allow-list of
  \<open>safe_eval\<close>, or a call whose callee is not one of the allowed names, is refused with a
  \<open>ValueError\<close>, whatever the host's evaluator is: nothing is evaluated. The allow-list
  holds constants, names, the binary operators \<open>+ - * / ** % //\<close>, unary \<open>+ -\<close>, calls,
  and also tuple and list displays; attribute access, subscripting, keywords and every other
  node class are outside. (The claim as stated fails: a tuple display is evaluated.)
\<close>

theorem C2_outside_allow_list_rejected:
  assumes "ast_parse h (replace_caret expr) = Inr body"
    and "n \<in> nodes_of (Expression body)"
    and "\<not> allowed_node n \<or> bad_call (map fst (allowed_names mode_deg)) n"
  shows "\<exists>m. safe_eval h expr mode_deg = Inl (ValueError m)
             \<and> (\<forall>ev. safe_eval (h\<lparr>py_eval := ev\<rparr>) expr mode_deg = Inl (ValueError m))"
  using assms by (rule safe_eval_rejects)

theorem C2_outside_allow_list_rejected_witness:
  "\<exists>m. safe_eval sample_host ''a.b1'' False = Inl (ValueError m)
       \<and> (\<forall>ev. safe_eval (sample_host\<lparr>py_eval := ev\<rparr>) ''a.b1'' False = Inl (ValueError m))"
  using C2_outside_allow_list_rejected[OF sample_attribute(1) sample_attribute(2), of False]
    sample_attribute(3) by blast

text \<open>
  Claim C2, as stated, fails on a tuple display: \<open>safe_eval("(1, 2)")\<close> returns the tuple.
\<close>

theorem C2_tuple_display_evaluated:
  "safe_eval sample_host ''(1, 2)'' False = Inr (VTuple [VInt 1, VInt 2])"
  by (simp add: safe_eval_def sample_defs text_defs allowed_names_def)

text \<open>
  Claim C3, as amended. On \<open>__import__('os') to m\<close> the pattern hands the evaluator the
  text \<open>_\<close> only; the call fails on every host, and on a host that reads \<open>_\<close> as a
  name, finds it undefined and refuses it as a float, the error is the one of the value
  step (the spec's EvalError). When the value text holds a construct outside the allow-list
  of \<open>safe_eval\<close> and \<open>float\<close> refuses the text, the call fails with the error of
  \<open>float\<close>, whatever the host's evaluator is. A construct that the allow-list admits is
  evaluated, also when the spec does not list it (see the next theorem).
\<close>

theorem C3_injected_text_fails:
  "expr_groups ''__import__('os') to m'' = Some (''_'', ''_import__('os')'', ''m'')
   \<and> (\<exists>e. parse_and_convert h ''__import__('os') to m'' deg = Inl e)
   \<and> (ast_parse h ''_'' = Inr (Name ''_'') \<and> py_eval h (allowed_names deg) (Name ''_'') = Inl e1
        \<and> float_of_str h ''_'' = Inl e0
      \<longrightarrow> parse_and_convert h ''__import__('os') to m'' deg = Inl e0)
   \<and> (expr_groups s = Some (v, f, t) \<and> ast_parse h (replace_caret v) = Inr body
        \<and> n \<in> nodes_of (Expression body)
        \<and> (\<not> allowed_node n \<or> bad_call (map fst (allowed_names deg)) n)
        \<and> float_of_str h v = Inl e
      \<longrightarrow> parse_and_convert h s deg = Inl e
          \<and> (\<forall>ev. parse_and_convert (h\<lparr>py_eval := ev\<rparr>) s deg = Inl e))"
proof (intro conjI impI)
  show g: "expr_groups ''__import__('os') to m'' = Some (''_'', ''_import__('os')'', ''m'')"
    by (rule groups_examples)
  show "\<exists>e. parse_and_convert h ''__import__('os') to m'' deg = Inl e"
  proof (cases "eval_value h ''_'' deg")
    case (Inl e)
    then show ?thesis by (simp add: parse_and_convert_eval_error[OF g])
  next
    case (Inr x)
    then show ?thesis
      using convert_injection[of x] by (simp add: parse_and_convert_groups[OF g])
  qed
next
  assume a: "ast_parse h ''_'' = Inr (Name ''_'') \<and> py_eval h (allowed_names deg) (Name ''_'') = Inl e1
        \<and> float_of_str h ''_'' = Inl e0"
  then have "eval_value h ''_'' deg = Inl e0"
    by (simp add: eval_value_def safe_eval_def allowed_names_def)
  then show "parse_and_convert h ''__import__('os') to m'' deg = Inl e0"
    by (simp add: parse_and_convert_eval_error[OF groups_examples(12)])
next
  assume a: "expr_groups s = Some (v, f, t) \<and> ast_parse h (replace_caret v) = Inr body
        \<and> n \<in> nodes_of (Expression body)
        \<and> (\<not> allowed_node n \<or> bad_call (map fst (allowed_names deg)) n)
        \<and> float_of_str h v = Inl e"
  then have r: "eval_value h v deg = Inl e" "\<And>ev. eval_value (h\<lparr>py_eval := ev\<rparr>) v deg = Inl e"
    using eval_value_rejected[of h v body n deg] by auto
  from a r show "parse_and_convert h s deg = Inl e"
    by (simp add: parse_and_convert_eval_error)
  from a r show "\<forall>ev. parse_and_convert (h\<lparr>py_eval := ev\<rparr>) s deg = Inl e"
    by (simp add: parse_and_convert_eval_error)
qed

theorem C3_injected_text_fails_witness:
  "parse_and_convert sample_host ''__import__('os') to m'' False
     = Inl (ValueError (''could not convert string to float: '' @ quoted ''_''))
   \<and> parse_and_convert sample_host ''a.b1 m to cm'' False
     = Inl (ValueError (''could not convert string to float: '' @ quoted ''a.b1''))"
proof -
  have h: "ast_parse sample_host ''_'' = Inr (Name ''_'')"
    "py_eval sample_host (allowed_names False) (Name ''_'')
       = Inl (NameError (''name '' @ quoted ''_'' @ '' is not defined''))"
    "float_of_str sample_host ''_''
       = Inl (ValueError (''could not convert string to float: '' @ quoted ''_''))"
    by (simp_all add: sample_defs text_defs allowed_names_def)
  note t = C3_injected_text_fails[of sample_host False
      "NameError (''name '' @ quoted ''_'' @ '' is not defined'')"
      "ValueError (''could not convert string to float: '' @ quoted ''_'')"
      "''a.b1 m to cm''" "''a.b1''" "''m''" "''cm''" "Attribute (Name ''a'') ''b1''"
      "E (Attribute (Name ''a'') ''b1'')"
      "ValueError (''could not convert string to float: '' @ quoted ''a.b1'')"]
  from t h have "parse_and_convert sample_host ''__import__('os') to m'' False
     = Inl (ValueError (''could not convert string to float: '' @ quoted ''_''))" by blast
  moreover from t groups_examples(13) sample_attribute
  have "parse_and_convert sample_host ''a.b1 m to cm'' False
     = Inl (ValueError (''could not convert string to float: '' @ quoted ''a.b1''))" by blast
  ultimately show ?thesis by blast
qed

text \<open>
  Claim C3, as stated, fails for syntax the spec disallows and the allow-list admits: the
  constant \<open>True\<close> is neither a numeric literal nor one of \<open>pi\<close>, \<open>e\<close>, yet
  \<open>True*1 m to cm\<close> converts 1 m to 100 cm.
\<close>

theorem C3_true_constant_converts:
  "safe_eval sample_host ''True*1'' False = Inr (VInt 1)
   \<and> parse_and_convert sample_host ''True*1 m to cm'' False = Inr (1, ''m'', ''length'', 100, ''cm'')"
proof -
  have s: "safe_eval sample_host ''True*1'' False = Inr (VInt 1)"
    by (simp add: safe_eval_def sample_defs text_defs allowed_names_def int_binop_def)
  then have "eval_value sample_host ''True*1'' False = Inr 1"
    by (simp add: eval_value_def py_float_def)
  then have "parse_and_convert sample_host ''True*1 m to cm'' False
      = Inr (1, ''m'', ''length'', 100, ''cm'')"
    by (simp add: parse_and_convert_groups[OF groups_true] convert_true)
  with s show ?thesis by simp
qed

text \<open>
  Claim C4. The batch loop gives one record per line that is neither blank nor starts with
  \<open>#\<close>, in order, an \<open>[error]\<close> record for a failing line. The loop of \<open>run_batch\<close>
  does skip blank lines, keeps the order and goes on after an error (third conjunct), but
  it does not skip a line that starts with \<open>#\<close>: such a line gets an \<open>[error]\<close> record
  (first and second conjunct).
\<close>

theorem C4_hash_line_gets_error_record:
  "run_batch h deg [] [''# note'', ''3 ft to cm'']
     = [error_line ''# note'' parse_error,
        (case parse_and_convert h ''3 ft to cm'' deg of
           Inr r \<Rightarrow> result_line h r | Inl e \<Rightarrow> error_line ''3 ft to cm'' e)]
   \<and> take 7 (error_line ''# note'' parse_error) = ''[error]''
   \<and> run_batch h deg [] lines
     = map (\<lambda>line. case parse_and_convert h line deg of
                      Inr r \<Rightarrow> result_line h r | Inl e \<Rightarrow> error_line line e)
         (filter (\<lambda>line. strip line \<noteq> []) lines)"
proof (intro conjI)
  have "strip ''# note'' \<noteq> []" "strip ''3 ft to cm'' \<noteq> []"
    by (simp_all add: strip_def text_defs)
  then show "run_batch h deg [] [''# note'', ''3 ft to cm'']
     = [error_line ''# note'' parse_error,
        (case parse_and_convert h ''3 ft to cm'' deg of
           Inr r \<Rightarrow> result_line h r | Inl e \<Rightarrow> error_line ''3 ft to cm'' e)]"
    by (simp add: parse_and_convert_no_match[OF groups_examples(11)])
  show "take 7 (error_line ''# note'' parse_error) = ''[error]''"
    by (simp add: error_line_def)
  show "run_batch h deg [] lines
     = map (\<lambda>line. case parse_and_convert h line deg of
                      Inr r \<Rightarrow> result_line h r | Inl e \<Rightarrow> error_line line e)
         (filter (\<lambda>line. strip line \<noteq> []) lines)"
    by (simp add: run_batch_map)
qed

text \<open>
  Claim C10. Whenever the pattern matches, the FROM text it captures holds no decimal
  digit, so the name a successful call reports belongs to a unit found under a digit-free
  text; \<open>1 m^2 to ft^2\<close> is a parse error although \<open>m^2\<close> and \<open>ft^2\<close> are
  registered units of area.
\<close>

theorem C10_from_unit_has_no_digit:
  "(expr_groups s = Some (v, f, t) \<longrightarrow> (\<forall>c\<in>set f. \<not> is_digit c))
   \<and> (parse_and_convert h s deg = Inr (x, fn, cat, y, tn) \<longrightarrow>
        (\<exists>v f t. expr_groups s = Some (v, f, t) \<and> (\<forall>c\<in>set f. \<not> is_digit c)
           \<and> map_option name (get ureg cat f) = Some fn))
   \<and> parse_and_convert h ''1 m^2 to ft^2'' deg = Inl parse_error
   \<and> map_option name (get ureg ''area'' ''m^2'') = Some ''m^2''
   \<and> map_option name (get ureg ''area'' ''ft^2'') = Some ''ft^2''"
proof (intro conjI impI)
  assume "expr_groups s = Some (v, f, t)"
  then show "\<forall>c\<in>set f. \<not> is_digit c" by (rule expr_groups_from)
next
  assume a: "parse_and_convert h s deg = Inr (x, fn, cat, y, tn)"
  then obtain v f t where g: "expr_groups s = Some (v, f, t)"
    by (auto simp: parse_and_convert_def split: option.splits)
  with a obtain x' where "convert_units x' f t = Inr (x, fn, cat, y, tn)"
    by (auto simp: parse_and_convert_def split: sum.splits)
  then have "map_option name (get ureg cat f) = Some fn"
    by (auto simp: convert_units_def split: option.splits if_splits sum.splits)
  with g expr_groups_from[OF g]
  show "\<exists>v f t. expr_groups s = Some (v, f, t) \<and> (\<forall>c\<in>set f. \<not> is_digit c)
           \<and> map_option name (get ureg cat f) = Some fn" by blast
next
  show "parse_and_convert h ''1 m^2 to ft^2'' deg = Inl parse_error"
    by (simp add: parse_and_convert_no_match[OF groups_examples(10)])
  show "map_option name (get ureg ''area'' ''m^2'') = Some ''m^2''"
    by (simp add: lookup)
  show "map_option name (get ureg ''area'' ''ft^2'') = Some ''ft^2''"
    by (simp add: lookup)
qed

theorem C10_from_unit_has_no_digit_witness:
  "expr_groups ''3 ft to cm'' = Some (''3'', ''ft'', ''cm'')
   \<and> \<not> is_digit (CHR ''f'') \<and> \<not> is_digit (CHR ''t'')
   \<and> (\<exists>f. map_option name (get ureg ''length'' f) = Some ''ft'')"
proof -
  note t = C10_from_unit_has_no_digit[of "''3 ft to cm''" "''3''" "''ft''" "''cm''" sample_host
      False 3 "''ft''" "''length''" "91.44" "''cm''"]
  have p: "parse_and_convert sample_host ''3 ft to cm'' False
      = Inr (3, ''ft'', ''length'', 91.44, ''cm'')"
    using eval_value_literal[OF sample_literal(1), of False]
    by (simp add: parse_and_convert_groups[OF groups_examples(1)] convert_examples)
  from t groups_examples(1) have "\<forall>c\<in>set ''ft''. \<not> is_digit c" by blast
  then have "\<not> is_digit (CHR ''f'') \<and> \<not> is_digit (CHR ''t'')" by simp
  moreover from t p have "\<exists>f. map_option name (get ureg ''length'' f) = Some ''ft''" by blast
  ultimately show ?thesis using groups_examples(1) by blast
qed

text \<open>
  Claim C9, as amended. The result depends on the two unit texts only through the units
  the registry returns for them: two inputs with the same value text whose unit texts
  give the same unit in every category have the same successful results (first conjunct),
  and texts that are equal up to case give the same unit (second). An input that differs
  from a matching input only in the case of letters matches too, with groups equal up to
  case, and has the same successful results when the value text is the same (third). So
  \<open>3 FT to CM\<close> gives what \<open>3 ft to cm\<close> gives, and \<open>1 kilometer to m\<close> what
  \<open>1 km to m\<close> gives, on a host that reads the literals. (A registered name that the
  pattern cannot capture is not interchangeable with its aliases; see the next theorem.)
\<close>

theorem C9_same_units_same_result:
  "(expr_groups s = Some (v, f, t) \<and> expr_groups s' = Some (v, f', t')
      \<and> (\<forall>c. get ureg c f = get ureg c f') \<and> (\<forall>c. get ureg c t = get ureg c t')
    \<longrightarrow> (parse_and_convert h s deg = Inr r) = (parse_and_convert h s' deg = Inr r))
   \<and> (lower a = lower b \<longrightarrow> (\<forall>c. get ureg c a = get ureg c b))
   \<and> (lower s1 = lower s2 \<and> expr_groups s1 = Some (v1, f1, t1) \<longrightarrow>
        (\<exists>v2 f2 t2. expr_groups s2 = Some (v2, f2, t2)
           \<and> lower v2 = lower v1 \<and> lower f2 = lower f1 \<and> lower t2 = lower t1
           \<and> (v2 = v1 \<longrightarrow>
                (parse_and_convert h s1 deg = Inr r) = (parse_and_convert h s2 deg = Inr r))))
   \<and> (literal_host h ''3'' 3 \<longrightarrow>
        parse_and_convert h ''3 FT to CM'' deg = parse_and_convert h ''3 ft to cm'' deg
        \<and> (\<exists>y. parse_and_convert h ''3 ft to cm'' deg = Inr (3, ''ft'', ''length'', y, ''cm'')))
   \<and> (literal_host h ''1'' 1 \<longrightarrow>
        parse_and_convert h ''1 kilometer to m'' deg = parse_and_convert h ''1 km to m'' deg
        \<and> (\<exists>y. parse_and_convert h ''1 km to m'' deg = Inr (1, ''km'', ''length'', y, ''m'')))"
proof (intro conjI impI)
  assume a: "expr_groups s = Some (v, f, t) \<and> expr_groups s' = Some (v, f', t')
      \<and> (\<forall>c. get ureg c f = get ureg c f') \<and> (\<forall>c. get ureg c t = get ureg c t')"
  then have g: "expr_groups s = Some (v, f, t)" and g': "expr_groups s' = Some (v, f', t')"
    and F: "\<And>c. get ureg c f = get ureg c f'" and T: "\<And>c. get ureg c t = get ureg c t'"
    by simp_all
  show "(parse_and_convert h s deg = Inr r) = (parse_and_convert h s' deg = Inr r)"
    using g g' by (rule parse_and_convert_same_units) (rule F, rule T)
next
  assume "lower a = lower b"
  then show "\<forall>c. get ureg c a = get ureg c b" by (intro allI get_lower)
next
  assume a: "lower s1 = lower s2 \<and> expr_groups s1 = Some (v1, f1, t1)"
  then have l: "lower s1 = lower s2" and g: "expr_groups s1 = Some (v1, f1, t1)"
    by simp_all
  from expr_groups_blind[OF l g] obtain v2 f2 t2
    where g2: "expr_groups s2 = Some (v2, f2, t2)"
      and lv: "lower v2 = lower v1" and lf: "lower f2 = lower f1" and lt: "lower t2 = lower t1"
    by blast
  have "(parse_and_convert h s1 deg = Inr r) = (parse_and_convert h s2 deg = Inr r)"
    if e: "v2 = v1"
    using g g2[unfolded e]
    by (rule parse_and_convert_same_units) (rule get_lower[OF lf[symmetric]], rule get_lower[OF lt[symmetric]])
  with g2 lv lf lt
  show "\<exists>v2 f2 t2. expr_groups s2 = Some (v2, f2, t2)
           \<and> lower v2 = lower v1 \<and> lower f2 = lower f1 \<and> lower t2 = lower t1
           \<and> (v2 = v1 \<longrightarrow>
                (parse_and_convert h s1 deg = Inr r) = (parse_and_convert h s2 deg = Inr r))"
    by blast
next
  assume "literal_host h ''3'' 3"
  then have e: "eval_value h ''3'' deg = Inr 3"
    using eval_value_literal[of h "''3''" 3 deg] by simp
  show "parse_and_convert h ''3 FT to CM'' deg = parse_and_convert h ''3 ft to cm'' deg"
    by (simp add: parse_and_convert_groups[OF groups_examples(1) e]
        parse_and_convert_groups[OF groups_examples(2) e] convert_examples)
  show "\<exists>y. parse_and_convert h ''3 ft to cm'' deg = Inr (3, ''ft'', ''length'', y, ''cm'')"
    by (rule exI[of _ "91.44"])
      (simp add: parse_and_convert_groups[OF groups_examples(1) e] convert_examples)
next
  assume "literal_host h ''1'' 1"
  then have e: "eval_value h ''1'' deg = Inr 1"
    using eval_value_literal[of h "''1''" 1 deg] by simp
  show "parse_and_convert h ''1 kilometer to m'' deg = parse_and_convert h ''1 km to m'' deg"
    by (simp add: parse_and_convert_groups[OF groups_examples(4) e]
        parse_and_convert_groups[OF groups_examples(5) e] convert_examples)
  show "\<exists>y. parse_and_convert h ''1 km to m'' deg = Inr (1, ''km'', ''length'', y, ''m'')"
    by (rule exI[of _ 1000])
      (simp add: parse_and_convert_groups[OF groups_examples(5) e] convert_examples)
qed

theorem C9_same_units_same_result_witness:
  "(\<exists>y. parse_and_convert sample_host ''3 FT to CM'' False = Inr (3, ''ft'', ''length'', y, ''cm''))
   \<and> parse_and_convert sample_host ''1 kilometer to m'' False
     = parse_and_convert sample_host ''1 km to m'' False
   \<and> (\<forall>c. get ureg c ''ft'' = get ureg c ''FT'')
   \<and> (\<exists>v f t. expr_groups ''3 Ft To cM'' = Some (v, f, t)
         \<and> lower f = lower ''ft'' \<and> lower t = lower ''cm'')"
proof -
  note t = C9_same_units_same_result[where s = "''3 ft to cm''" and v = "''3''" and f = "''ft''"
      and t = "''cm''" and s' = "''3 FT to CM''" and f' = "''FT''" and t' = "''CM''"
      and h = sample_host and deg = False and a = "''ft''" and b = "''FT''"
      and ?s1.0 = "''3 ft to cm''" and ?s2.0 = "''3 Ft To cM''" and ?v1.0 = "''3''"
      and ?f1.0 = "''ft''" and ?t1.0 = "''cm''"]
  note u = C9_same_units_same_result[where a = "''cm''" and b = "''CM''"]
  have l: "lower ''ft'' = lower ''FT''" "lower ''cm'' = lower ''CM''"
    "lower ''3 ft to cm'' = lower ''3 Ft To cM''"
    by (simp_all add: text_defs)
  have F: "\<forall>c. get ureg c ''ft'' = get ureg c ''FT''"
    by (rule t[THEN conjunct2, THEN conjunct1, THEN mp, OF l(1)])
  have T: "\<forall>c. get ureg c ''cm'' = get ureg c ''CM''"
    by (rule u[THEN conjunct2, THEN conjunct1, THEN mp, OF l(2)])
  note three = t[THEN conjunct2, THEN conjunct2, THEN conjunct2, THEN conjunct1, THEN mp,
      OF sample_literal(1)]
  from three[THEN conjunct2] obtain y where
    p: "parse_and_convert sample_host ''3 ft to cm'' False = Inr (3, ''ft'', ''length'', y, ''cm'')"
    by (rule exE)
  have "parse_and_convert sample_host ''3 FT to CM'' False = Inr (3, ''ft'', ''length'', y, ''cm'')"
    by (rule iffD1[OF t[THEN conjunct1, THEN mp,
          OF conjI[OF groups_examples(1) conjI[OF groups_examples(2) conjI[OF F T]]]] p])
  then have A: "\<exists>y. parse_and_convert sample_host ''3 FT to CM'' False
      = Inr (3, ''ft'', ''length'', y, ''cm'')" by (rule exI[of _ y])
  have B: "parse_and_convert sample_host ''1 kilometer to m'' False
     = parse_and_convert sample_host ''1 km to m'' False"
    by (rule t[THEN conjunct2, THEN conjunct2, THEN conjunct2, THEN conjunct2, THEN mp,
          OF sample_literal(3), THEN conjunct1])
  note n = t[where r = "(3, ''ft'', ''length'', y, ''cm'')", THEN conjunct2, THEN conjunct2,
      THEN conjunct1, THEN mp, OF conjI[OF l(3) groups_examples(1)]]
  from n obtain v2 f2 t2 where g: "expr_groups ''3 Ft To cM'' = Some (v2, f2, t2)"
    and lf: "lower f2 = lower ''ft''" and lt: "lower t2 = lower ''cm''"
    by blast
  have G: "\<exists>v f t. expr_groups ''3 Ft To cM'' = Some (v, f, t)
         \<and> lower f = lower ''ft'' \<and> lower t = lower ''cm''"
    by (intro exI[of _ v2] exI[of _ f2] exI[of _ t2] conjI) (rule g, rule lf, rule lt)
  show ?thesis by (intro conjI) (rule A, rule B, rule F, rule G)
qed

text \<open>
  Claim C9, as stated, fails for a registered name with a digit: \<open>cc\<close> and \<open>cm^3\<close> are
  keys of the same unit, \<open>1 cc to L\<close> converts, \<open>1 cm^3 to L\<close> is a parse error.
\<close>

theorem C9_digit_alias_not_interchangeable:
  "get ureg ''volume'' ''cc'' = get ureg ''volume'' ''cm^3''
   \<and> map_option name (get ureg ''volume'' ''cc'') = Some ''cm^3''
   \<and> (\<exists>y. parse_and_convert sample_host ''1 cc to L'' False = Inr (1, ''cm^3'', ''volume'', y, ''L''))
   \<and> parse_and_convert sample_host ''1 cm^3 to L'' False = Inl parse_error"
proof (intro conjI)
  have e: "eval_value sample_host ''1'' False = Inr 1"
    using eval_value_literal[OF sample_literal(3), of False] by simp
  show "get ureg ''volume'' ''cc'' = get ureg ''volume'' ''cm^3''"
    by (simp add: lookup)
  show "map_option name (get ureg ''volume'' ''cc'') = Some ''cm^3''"
    by (simp add: lookup)
  show "\<exists>y. parse_and_convert sample_host ''1 cc to L'' False
      = Inr (1, ''cm^3'', ''volume'', y, ''L'')"
    by (rule exI[of _ "1 / 1000"])
      (simp add: parse_and_convert_groups[OF groups_examples(8) e] convert_examples)
  show "parse_and_convert sample_host ''1 cm^3 to L'' False = Inl parse_error"
    by (simp add: parse_and_convert_no_match[OF groups_examples(9)])
qed

end
